theory Spec2Isabelle
  imports Main "HOL-Library.Multiset" "HOL-Library.Char_ord" "HOL-Library.List_Lexorder"
    "HOL-Library.Word"
begin

unbundle bit_operations_syntax

section \<open>Data model (client.go, report.go, config.go of release 0.3.0)\<close>

text \<open>
  The repository holds three generations of the same tool. The current one (version 0.3.0)
  is split over \<^verbatim>\<open>config.go\<close>, \<^verbatim>\<open>report.go\<close>, \<^verbatim>\<open>render.go\<close> and the first 165 lines
  of \<^verbatim>\<open>client.go\<close>; the single-file release 0.2.0 follows in \<^verbatim>\<open>client.go\<close> (lines 167 to
  863). Definitions without a suffix embed release 0.3.0; definitions of release 0.2.0
  carry the suffix \<open>_v02\<close>.

  Go strings are byte sequences: \<^typ>\<open>string\<close>. A \<^verbatim>\<open>time.Time\<close> is compared by its instant
  only (\<^verbatim>\<open>Equal\<close>, \<^verbatim>\<open>After\<close>, \<^verbatim>\<open>Before\<close>), so it is modelled as the number of nanoseconds
  since the zero time \<^verbatim>\<open>time.Time{}\<close> (January 1, year 1, 00:00:00 UTC).
\<close>

type_synonym time = int

definition zeroTime :: time where
  "zeroTime = 0"

definition IsZero :: "time \<Rightarrow> bool" where
  "IsZero t \<longleftrightarrow> t = zeroTime"

record component =
  c_Name :: string
  c_Status :: string
  c_Group :: bool

record incidentUpdate =
  u_Status :: string
  u_Body :: string
  u_CreatedAt :: string

record incident =
  i_ID :: string
  i_Name :: string
  i_Status :: string
  i_Impact :: string
  i_Shortlink :: string
  i_CreatedAt :: string
  i_UpdatedAt :: string
  i_IncidentUpdates :: "incidentUpdate list"

record report =
  r_Components :: "component list"
  r_Active :: "incident list"
  r_Resolved :: "incident list"

record config =
  cfg_showDetails :: bool
  cfg_showResolved :: bool
  cfg_showVersion :: bool
  cfg_output :: string
  cfg_timeout :: int

definition outputText :: string where
  "outputText = ''text''"

definition outputJSON :: string where
  "outputJSON = ''json''"

definition referenceComponent :: string where
  "referenceComponent = ''Visit www.githubstatus.com for more information''"

text \<open>\<^verbatim>\<open>resolvedLookback = 7 * 24 * time.Hour\<close>, in nanoseconds.\<close>

definition resolvedLookback :: int where
  "resolvedLookback = 7 * 24 * (3600 * 1000000000)"

definition maxIncidentUpdates :: nat where
  "maxIncidentUpdates = 3"

section \<open>The Go standard library, as a parameter\<close>

text \<open>
  The functions of the Go standard library that the program calls are not part of the
  repository. They are the fields of a record that every embedded function takes as its
  first argument: \<^verbatim>\<open>strings.ToLower\<close>, \<^verbatim>\<open>strings.TrimSpace\<close>, \<^verbatim>\<open>strings.EqualFold\<close>,
  \<^verbatim>\<open>time.Parse\<close> (layout, then value; \<open>None\<close> is the error) and \<^verbatim>\<open>sort.Slice\<close> at the
  three element types it is used at. \<^verbatim>\<open>sort.Slice\<close> receives the comparison on elements
  that the source's closure computes from two indices of the slice being sorted.
\<close>

record go_lib =
  ToLower :: "string \<Rightarrow> string"
  TrimSpace :: "string \<Rightarrow> string"
  EqualFold :: "string \<Rightarrow> string \<Rightarrow> bool"
  time_Parse :: "string \<Rightarrow> string \<Rightarrow> time option"
  sort_Slice_c :: "(component \<Rightarrow> component \<Rightarrow> bool) \<Rightarrow> component list \<Rightarrow> component list"
  sort_Slice_i :: "(incident \<Rightarrow> incident \<Rightarrow> bool) \<Rightarrow> incident list \<Rightarrow> incident list"
  sort_Slice_u :: "(incidentUpdate \<Rightarrow> incidentUpdate \<Rightarrow> bool) \<Rightarrow> incidentUpdate list
                    \<Rightarrow> incidentUpdate list"

definition RFC3339 :: string where
  "RFC3339 = ''2006-01-02T15:04:05Z07:00''"

definition RFC3339Nano :: string where
  "RFC3339Nano = ''2006-01-02T15:04:05.999999999Z07:00''"

text \<open>
  The documented contract of \<^verbatim>\<open>sort.Slice\<close>: the slice is permuted, and it ends up sorted
  with respect to \<open>lt\<close> whenever \<open>lt\<close> is a strict weak ordering. The sort is not
  stable, so nothing is said about the order of elements that \<open>lt\<close> does not separate.
\<close>

definition strict_weak :: "('a \<Rightarrow> 'a \<Rightarrow> bool) \<Rightarrow> bool" where
  "strict_weak lt \<longleftrightarrow>
     (\<forall>a. \<not> lt a a) \<and>
     (\<forall>a b c. lt a b \<and> lt b c \<longrightarrow> lt a c) \<and>
     (\<forall>a b c. \<not> lt a b \<and> \<not> lt b c \<longrightarrow> \<not> lt a c)"

definition sorts :: "(('a \<Rightarrow> 'a \<Rightarrow> bool) \<Rightarrow> 'a list \<Rightarrow> 'a list) \<Rightarrow> bool" where
  "sorts srt \<longleftrightarrow>
     (\<forall>lt xs. mset (srt lt xs) = mset xs) \<and>
     (\<forall>lt xs. strict_weak lt \<longrightarrow> sorted_wrt (\<lambda>a b. \<not> lt b a) (srt lt xs))"

definition sort_Slice_ok :: "go_lib \<Rightarrow> bool" where
  "sort_Slice_ok L \<longleftrightarrow> sorts (sort_Slice_c L) \<and> sorts (sort_Slice_i L) \<and> sorts (sort_Slice_u L)"

subsection \<open>A concrete library for evaluation\<close>

text \<open>
  One instance of the library, used to run the embedded functions on concrete inputs. Its
  string functions agree with Go's on ASCII input; its sort is an insertion sort; its
  parser knows the timestamps of a fixed table (nanoseconds since the zero time, that is
  the Unix time plus 62135596800 seconds) and rejects every other string.
\<close>

definition lower_char :: "char \<Rightarrow> char" where
  "lower_char c = (if CHR ''A'' \<le> c \<and> c \<le> CHR ''Z'' then char_of (of_char c + (32::nat)) else c)"

definition ascii_ToLower :: "string \<Rightarrow> string" where
  "ascii_ToLower s = map lower_char s"

definition ascii_space :: "char \<Rightarrow> bool" where
  "ascii_space c \<longleftrightarrow> c \<in> set [CHR 0x09, CHR 0x0A, CHR 0x0B, CHR 0x0C, CHR 0x0D, CHR '' '']"

definition ascii_TrimSpace :: "string \<Rightarrow> string" where
  "ascii_TrimSpace s = rev (dropWhile ascii_space (rev (dropWhile ascii_space s)))"

definition ascii_EqualFold :: "string \<Rightarrow> string \<Rightarrow> bool" where
  "ascii_EqualFold s t \<longleftrightarrow> ascii_ToLower s = ascii_ToLower t"

definition sample_times :: "(string \<times> time) list" where
  "sample_times =
    [(''2024-01-01T00:00:00Z'', 63839664000 * 1000000000),
     (''2024-01-02T00:00:00Z'', 63839750400 * 1000000000),
     (''2024-01-03T00:00:00Z'', 63839836800 * 1000000000),
     (''2024-01-10T00:00:00Z'', 63840441600 * 1000000000)]"

definition sample_Parse :: "string \<Rightarrow> string \<Rightarrow> time option" where
  "sample_Parse layout v = (if layout = RFC3339 then map_of sample_times v else None)"

fun insert_by :: "('a \<Rightarrow> 'a \<Rightarrow> bool) \<Rightarrow> 'a \<Rightarrow> 'a list \<Rightarrow> 'a list" where
  "insert_by lt x [] = [x]"
| "insert_by lt x (y # ys) = (if lt y x then y # insert_by lt x ys else x # y # ys)"

fun isort_by :: "('a \<Rightarrow> 'a \<Rightarrow> bool) \<Rightarrow> 'a list \<Rightarrow> 'a list" where
  "isort_by lt [] = []"
| "isort_by lt (x # xs) = insert_by lt x (isort_by lt xs)"

definition sample_lib :: go_lib where
  "sample_lib = \<lparr>ToLower = ascii_ToLower, TrimSpace = ascii_TrimSpace,
     EqualFold = ascii_EqualFold, time_Parse = sample_Parse,
     sort_Slice_c = isort_by, sort_Slice_i = isort_by, sort_Slice_u = isort_by\<rparr>"

section \<open>Status client (client.go, lines 1 to 165)\<close>

text \<open>
  \<^verbatim>\<open>time.Now()\<close> is the argument \<open>now\<close> of the functions that read the clock. The method
  \<^verbatim>\<open>RecentResolvedIncidents\<close> is \<open>client_RecentResolvedIncidents\<close>; what it does with the
  decoded incidents, the cutoff and the loop, is \<open>recentResolved\<close>.
\<close>

definition parseTime :: "go_lib \<Rightarrow> string \<Rightarrow> time option" where
  "parseTime L raw =
     (if raw = [] then None
      else case time_Parse L RFC3339 raw of
             Some t \<Rightarrow> Some t
           | None \<Rightarrow> (case time_Parse L RFC3339Nano raw of
                        Some t \<Rightarrow> Some t
                      | None \<Rightarrow> None))"

text \<open>The loop of \<^verbatim>\<open>incidentTime\<close> over the updates, in the order of the slice it is given.\<close>

fun firstParsed :: "go_lib \<Rightarrow> incidentUpdate list \<Rightarrow> time" where
  "firstParsed L [] = zeroTime"
| "firstParsed L (upd # rest) =
     (case parseTime L (u_CreatedAt upd) of
        Some t \<Rightarrow> t
      | None \<Rightarrow> firstParsed L rest)"

definition incidentTime :: "go_lib \<Rightarrow> incident \<Rightarrow> time" where
  "incidentTime L inc =
     (case parseTime L (i_UpdatedAt inc) of
        Some t \<Rightarrow> t
      | None \<Rightarrow>
          if length (i_IncidentUpdates inc) = 0
          then (case parseTime L (i_CreatedAt inc) of Some t \<Rightarrow> t | None \<Rightarrow> zeroTime)
          else firstParsed L (i_IncidentUpdates inc))"

text \<open>
  The HTTP exchange of \<^verbatim>\<open>get\<close>: building the request fails, or the transport fails, or a
  response arrives with a status code and a body that decodes into the target (\<open>Some\<close>)
  or does not (\<open>None\<close>).
\<close>

datatype 'a http_reply = NewRequestFailed | DoFailed | Reply int "'a option"

datatype get_error = RequestError | TransportError | UnexpectedResponse int | DecodeError

datatype error =
    FetchComponents get_error
  | FetchActiveIncidents get_error
  | FetchResolvedIncidents get_error
  | NoComponents

datatype endpoint = ComponentsURL | UnresolvedURL | IncidentsURL

text \<open>What the server answers at each of the three endpoints of a \<^verbatim>\<open>statusClient\<close>.\<close>

record statusClient =
  componentsURL :: "component list http_reply"
  unresolvedURL :: "incident list http_reply"
  incidentsURL :: "incident list http_reply"

definition get :: "'a http_reply \<Rightarrow> get_error + 'a" where
  "get reply =
     (case reply of
        NewRequestFailed \<Rightarrow> Inl RequestError
      | DoFailed \<Rightarrow> Inl TransportError
      | Reply StatusCode body \<Rightarrow>
          if StatusCode \<noteq> 200 then Inl (UnexpectedResponse StatusCode)
          else (case body of None \<Rightarrow> Inl DecodeError | Some payload \<Rightarrow> Inr payload))"

text \<open>
  Each client method returns its result and the log of requests extended by the endpoint
  it has asked.
\<close>

definition client_Components ::
  "statusClient \<Rightarrow> endpoint list \<Rightarrow> (error + component list) \<times> endpoint list" where
  "client_Components c log =
     (case get (componentsURL c) of
        Inl err \<Rightarrow> (Inl (FetchComponents err), log @ [ComponentsURL])
      | Inr payload \<Rightarrow> (Inr payload, log @ [ComponentsURL]))"

definition client_ActiveIncidents ::
  "statusClient \<Rightarrow> endpoint list \<Rightarrow> (error + incident list) \<times> endpoint list" where
  "client_ActiveIncidents c log =
     (case get (unresolvedURL c) of
        Inl err \<Rightarrow> (Inl (FetchActiveIncidents err), log @ [UnresolvedURL])
      | Inr payload \<Rightarrow> (Inr payload, log @ [UnresolvedURL]))"

text \<open>
  The loop of \<^verbatim>\<open>RecentResolvedIncidents\<close>: \<open>seen\<close> is the set of ids met so far, \<open>results\<close>
  the slice appended to.
\<close>

fun resolvedLoop ::
  "go_lib \<Rightarrow> time \<Rightarrow> incident list \<Rightarrow> string set \<Rightarrow> incident list \<Rightarrow> incident list" where
  "resolvedLoop L cutoff [] seen results = results"
| "resolvedLoop L cutoff (inc # rest) seen results =
     (if \<not> EqualFold L (i_Status inc) ''resolved'' then resolvedLoop L cutoff rest seen results
      else if i_ID inc \<noteq> [] \<and> i_ID inc \<in> seen then resolvedLoop L cutoff rest seen results
      else
        (let seen' = (if i_ID inc \<noteq> [] then insert (i_ID inc) seen else seen);
             t = incidentTime L inc
         in if \<not> IsZero t \<and> t < cutoff then resolvedLoop L cutoff rest seen' results
            else resolvedLoop L cutoff rest seen' (results @ [inc])))"

definition recentResolved :: "go_lib \<Rightarrow> time \<Rightarrow> int \<Rightarrow> incident list \<Rightarrow> incident list" where
  "recentResolved L now lookback incidents =
     (let cutoff = now - lookback in resolvedLoop L cutoff incidents {} [])"

definition client_RecentResolvedIncidents ::
  "go_lib \<Rightarrow> time \<Rightarrow> statusClient \<Rightarrow> int \<Rightarrow> endpoint list
     \<Rightarrow> (error + incident list) \<times> endpoint list" where
  "client_RecentResolvedIncidents L now c lookback log =
     (case get (incidentsURL c) of
        Inl err \<Rightarrow> (Inl (FetchResolvedIncidents err), log @ [IncidentsURL])
      | Inr payload \<Rightarrow> (Inr (recentResolved L now lookback payload), log @ [IncidentsURL]))"

section \<open>Report builder (report.go)\<close>

definition filterComponents :: "go_lib \<Rightarrow> component list \<Rightarrow> component list" where
  "filterComponents L components =
     (let out = filter (\<lambda>comp. \<not> c_Group comp \<and> \<not> EqualFold L (c_Name comp) referenceComponent)
                  components
      in sort_Slice_c L (\<lambda>a b. ToLower L (c_Name a) < ToLower L (c_Name b)) out)"

definition impactOrder :: "go_lib \<Rightarrow> string \<Rightarrow> int" where
  "impactOrder L impact =
     (let s = ToLower L (TrimSpace L impact)
      in if s = ''critical'' then 0
         else if s = ''major'' then 1
         else if s = ''minor'' then 2
         else if s = ''none'' then 3
         else 4)"

text \<open>The closure handed to \<^verbatim>\<open>sort.Slice\<close> by \<^verbatim>\<open>sortIncidents\<close>.\<close>

definition incidentLess :: "go_lib \<Rightarrow> incident \<Rightarrow> incident \<Rightarrow> bool" where
  "incidentLess L a b =
     (let ti = incidentTime L a; tj = incidentTime L b
      in if ti \<noteq> tj then ti > tj
         else
           (let impactCompare = impactOrder L (i_Impact a) - impactOrder L (i_Impact b)
            in if impactCompare \<noteq> 0 then impactCompare < 0
               else ToLower L (i_Name a) < ToLower L (i_Name b)))"

definition sortIncidents :: "go_lib \<Rightarrow> incident list \<Rightarrow> incident list" where
  "sortIncidents L incidents = sort_Slice_i L (incidentLess L) incidents"

definition buildReport ::
  "go_lib \<Rightarrow> time \<Rightarrow> statusClient \<Rightarrow> config \<Rightarrow> (error + report) \<times> endpoint list" where
  "buildReport L now client cfg =
     (case client_Components client [] of
        (Inl err, log) \<Rightarrow> (Inl err, log)
      | (Inr comps, log) \<Rightarrow>
          (let r = \<lparr>r_Components = filterComponents L comps, r_Active = [], r_Resolved = []\<rparr>
           in if length (r_Components r) = 0 then (Inl NoComponents, log)
              else
                (let includeActive = (cfg_showDetails cfg \<or> cfg_output cfg = outputJSON);
                     includeResolved = (cfg_showResolved cfg \<or> cfg_output cfg = outputJSON)
                 in case (if includeActive
                          then (case client_ActiveIncidents client log of
                                  (Inl err, log1) \<Rightarrow> (Inl err, log1)
                                | (Inr active, log1) \<Rightarrow>
                                    (Inr (r\<lparr>r_Active := sortIncidents L active\<rparr>), log1))
                          else (Inr r, log)) of
                      (Inl err, log1) \<Rightarrow> (Inl err, log1)
                    | (Inr r1, log1) \<Rightarrow>
                        if includeResolved
                        then (case client_RecentResolvedIncidents L now client resolvedLookback log1 of
                                (Inl err, log2) \<Rightarrow> (Inl err, log2)
                              | (Inr resolved, log2) \<Rightarrow>
                                  (Inr (r1\<lparr>r_Resolved := sortIncidents L resolved\<rparr>), log2))
                        else (Inr r1, log1))))"

section \<open>Renderer (render.go)\<close>

definition summarizeUpdates :: "incidentUpdate list \<Rightarrow> incidentUpdate list" where
  "summarizeUpdates updates =
     (if length updates \<le> maxIncidentUpdates then updates else take maxIncidentUpdates updates)"

section \<open>The caller's slice\<close>

text \<open>
  \<^verbatim>\<open>sortIncidents\<close> receives a slice and returns a slice. To say what happens to the
  caller's slice, backing arrays live in a store, a list indexed by address: \<^verbatim>\<open>make\<close>
  allocates the next address, \<^verbatim>\<open>copy\<close> fills it, \<^verbatim>\<open>sort.Slice\<close> rewrites the array it is
  given in place, and the function returns the address of \<^verbatim>\<open>out\<close>.
\<close>

type_synonym store = "incident list list"

text \<open>The zero value of the struct, with which \<^verbatim>\<open>make\<close> fills a new array.\<close>

definition zeroIncident :: incident where
  "zeroIncident = \<lparr>i_ID = [], i_Name = [], i_Status = [], i_Impact = [], i_Shortlink = [],
     i_CreatedAt = [], i_UpdatedAt = [], i_IncidentUpdates = []\<rparr>"

text \<open>\<^verbatim>\<open>copy(dst, src)\<close> overwrites the first \<open>min (len dst) (len src)\<close> elements of \<open>dst\<close>.\<close>

definition copy_slice :: "'a list \<Rightarrow> 'a list \<Rightarrow> 'a list" where
  "copy_slice dst src =
     (let n = min (length dst) (length src) in take n src @ drop n dst)"

definition sortIncidents_store :: "go_lib \<Rightarrow> store \<Rightarrow> nat \<Rightarrow> store \<times> nat" where
  "sortIncidents_store L heap incidents =
     (let out = length heap;
          heap1 = heap @ [replicate (length (heap ! incidents)) zeroIncident];
          heap2 = heap1[out := copy_slice (heap1 ! out) (heap1 ! incidents)];
          heap3 = heap2[out := sort_Slice_i L (incidentLess L) (heap2 ! out)]
      in (heap3, out))"

section \<open>Release 0.2.0 (client.go, lines 167 to 863)\<close>

text \<open>\<^verbatim>\<open>retryBackoffInitial\<close> (300 ms) and \<^verbatim>\<open>retryBackoffMax\<close> (2 s) are \<^verbatim>\<open>time.Duration\<close>s:
  signed 64-bit counts of nanoseconds.\<close>

definition retryBackoffInitial :: "64 word" where
  "retryBackoffInitial = 300 * 1000000"

definition retryBackoffMax :: "64 word" where
  "retryBackoffMax = 2 * 1000000000"

text \<open>
  The duration \<^verbatim>\<open>waitForRetry\<close> sleeps for. The shift and the product are computed in
  64 bits and wrap around; the comparison is signed.
\<close>

definition backoff :: "nat \<Rightarrow> 64 word" where
  "backoff attempt =
     (let b = retryBackoffInitial * push_bit (attempt - 1) 1
      in if sint b > sint retryBackoffMax then retryBackoffMax else b)"

definition shouldRetryStatus :: "int \<Rightarrow> bool" where
  "shouldRetryStatus status = (if status = 429 then True else status \<ge> 500 \<and> status \<le> 599)"

datatype event = Request nat | Wait "64 word"


text \<open>
  The anonymous function that \<^verbatim>\<open>fetchJSON\<close> runs on a response. It works on \<^verbatim>\<open>lastErr\<close> and
  on the decoding target; its \<^verbatim>\<open>return\<close> leaves the anonymous function, not \<^verbatim>\<open>fetchJSON\<close>.
\<close>

definition onResponse ::
  "int \<Rightarrow> 'a option \<Rightarrow> nat \<Rightarrow> nat \<Rightarrow> 'a option \<Rightarrow> get_error option \<times> 'a option" where
  "onResponse StatusCode body attempt attempts target =
     (if StatusCode \<noteq> 200
      then (let lastErr = Some (UnexpectedResponse StatusCode)
            in if \<not> shouldRetryStatus StatusCode \<or> attempt = attempts
               then (lastErr, target)
               else (lastErr, target))
      else (case body of
              None \<Rightarrow> (Some DecodeError, target)
            | Some payload \<Rightarrow> (None, Some payload)))"

text \<open>
  The loop of \<^verbatim>\<open>fetchJSON\<close>. \<open>transport n\<close> is what the \<open>n\<close>-th attempt meets, \<open>ctxDone n\<close>
  says whether the context ends during the wait that follows the \<open>n\<close>-th attempt. The
  result is the returned error (\<open>None\<close> is \<^verbatim>\<open>nil\<close>), the decoding target, and the requests
  sent and waits started, in order.
\<close>

function fetchLoop ::
  "(nat \<Rightarrow> 'a http_reply) \<Rightarrow> (nat \<Rightarrow> bool) \<Rightarrow> nat \<Rightarrow> nat \<Rightarrow> get_error option \<Rightarrow> 'a option
     \<Rightarrow> event list \<Rightarrow> get_error option \<times> 'a option \<times> event list" where
  "fetchLoop transport ctxDone attempts attempt lastErr target trace =
     (if attempt \<le> attempts
      then (case transport attempt of
              NewRequestFailed \<Rightarrow> (Some RequestError, target, trace)
            | DoFailed \<Rightarrow>
                (let lastErr1 = Some TransportError; trace1 = trace @ [Request attempt]
                 in if lastErr1 = None then (None, target, trace1)
                    else if attempt = attempts then (lastErr1, target, trace1)
                    else if ctxDone attempt
                         then (lastErr1, target, trace1 @ [Wait (backoff attempt)])
                         else fetchLoop transport ctxDone attempts (attempt + 1) lastErr1 target
                                (trace1 @ [Wait (backoff attempt)]))
            | Reply StatusCode body \<Rightarrow>
                (let (lastErr1, target1) = onResponse StatusCode body attempt attempts target;
                     trace1 = trace @ [Request attempt]
                 in if lastErr1 = None then (None, target1, trace1)
                    else if attempt = attempts then (lastErr1, target1, trace1)
                    else if ctxDone attempt
                         then (lastErr1, target1, trace1 @ [Wait (backoff attempt)])
                         else fetchLoop transport ctxDone attempts (attempt + 1) lastErr1 target1
                                (trace1 @ [Wait (backoff attempt)])))
      else (lastErr, target, trace))"
  by pat_completeness auto
termination
  by (relation "measure (\<lambda>(transport, ctxDone, attempts, attempt, rest). attempts + 1 - attempt)")
     auto

declare fetchLoop.simps [simp del]

definition fetchJSON ::
  "(nat \<Rightarrow> 'a http_reply) \<Rightarrow> (nat \<Rightarrow> bool) \<Rightarrow> int
     \<Rightarrow> get_error option \<times> 'a option \<times> event list" where
  "fetchJSON transport ctxDone retries =
     (let attempts = (if retries < 1 then 1 else retries)
      in fetchLoop transport ctxDone (nat attempts) 1 None None [])"

definition updateTime :: "go_lib \<Rightarrow> incidentUpdate \<Rightarrow> time" where
  "updateTime L u = (case parseTime L (u_CreatedAt u) of Some t \<Rightarrow> t | None \<Rightarrow> zeroTime)"

definition sortIncidentUpdates :: "go_lib \<Rightarrow> incidentUpdate list \<Rightarrow> incidentUpdate list" where
  "sortIncidentUpdates L updates =
     sort_Slice_u L (\<lambda>a b. updateTime L a > updateTime L b) updates"

definition summarizeUpdates_v02 :: "go_lib \<Rightarrow> incidentUpdate list \<Rightarrow> incidentUpdate list" where
  "summarizeUpdates_v02 L updates =
     (let sorted = sortIncidentUpdates L updates
      in if length sorted > maxIncidentUpdates then take maxIncidentUpdates sorted else sorted)"

definition incidentTime_v02 :: "go_lib \<Rightarrow> incident \<Rightarrow> time" where
  "incidentTime_v02 L inc =
     (case parseTime L (i_UpdatedAt inc) of
        Some t \<Rightarrow> t
      | None \<Rightarrow>
          if length (i_IncidentUpdates inc) = 0
          then (case parseTime L (i_CreatedAt inc) of Some t \<Rightarrow> t | None \<Rightarrow> zeroTime)
          else firstParsed L (sortIncidentUpdates L (i_IncidentUpdates inc)))"

definition incidentLess_v02 :: "go_lib \<Rightarrow> incident \<Rightarrow> incident \<Rightarrow> bool" where
  "incidentLess_v02 L a b =
     (let ri = impactOrder L (i_Impact a); rj = impactOrder L (i_Impact b)
      in if ri \<noteq> rj then ri < rj
         else
           (let ti = incidentTime_v02 L a; tj = incidentTime_v02 L b
            in if ti \<noteq> tj then ti > tj
               else ToLower L (i_Name a) < ToLower L (i_Name b)))"

definition sortIncidents_v02 :: "go_lib \<Rightarrow> incident list \<Rightarrow> incident list" where
  "sortIncidents_v02 L incidents = sort_Slice_i L (incidentLess_v02 L) incidents"

section \<open>The order that sortIncidents sorts by\<close>

text \<open>
  The closure of \<^verbatim>\<open>sortIncidents\<close>, read as "not after": the larger \<open>incidentTime\<close>
  first; for equal \<open>incidentTime\<close> the smaller \<open>impactOrder\<close> first; for both equal the
  smaller lower-cased name first. Its first key is the timestamp that the code computes,
  \<open>incidentTime\<close>, which is not always the known timestamp of the specification (defined
  below). Two different incidents with the same three keys are ranked before each other:
  the relation is a total preorder of the incidents.
\<close>

definition rankedBefore :: "go_lib \<Rightarrow> incident \<Rightarrow> incident \<Rightarrow> bool" where
  "rankedBefore L a b \<longleftrightarrow>
     incidentTime L a > incidentTime L b \<or>
     (incidentTime L a = incidentTime L b \<and>
        (impactOrder L (i_Impact a) < impactOrder L (i_Impact b) \<or>
         (impactOrder L (i_Impact a) = impactOrder L (i_Impact b) \<and>
            ToLower L (i_Name a) \<le> ToLower L (i_Name b))))"

section \<open>The known timestamp and the ranking, in the words of the specification\<close>

text \<open>
  These two definitions follow the specification, not the code, and are what the code is
  compared with. The known timestamp is \<^verbatim>\<open>updatedAt\<close> if parseable; else the newest
  parseable timestamp of an update; else \<^verbatim>\<open>createdAt\<close>; else the oldest possible moment.
  The ranking puts the most recent known timestamp first, then the smaller impact rank,
  then the smaller lower-cased name.
\<close>

definition spec_knownTimestamp :: "go_lib \<Rightarrow> incident \<Rightarrow> time" where
  "spec_knownTimestamp L inc =
     (case parseTime L (i_UpdatedAt inc) of
        Some t \<Rightarrow> t
      | None \<Rightarrow>
          (case List.map_filter (\<lambda>u. parseTime L (u_CreatedAt u)) (i_IncidentUpdates inc) of
             t # ts \<Rightarrow> fold max ts t
           | [] \<Rightarrow> (case parseTime L (i_CreatedAt inc) of Some t \<Rightarrow> t | None \<Rightarrow> zeroTime)))"

definition spec_rankedBefore :: "go_lib \<Rightarrow> incident \<Rightarrow> incident \<Rightarrow> bool" where
  "spec_rankedBefore L a b \<longleftrightarrow>
     spec_knownTimestamp L a > spec_knownTimestamp L b \<or>
     (spec_knownTimestamp L a = spec_knownTimestamp L b \<and>
        (impactOrder L (i_Impact a) < impactOrder L (i_Impact b) \<or>
         (impactOrder L (i_Impact a) = impactOrder L (i_Impact b) \<and>
            ToLower L (i_Name a) \<le> ToLower L (i_Name b))))"

section \<open>Notions used to state the resolved filter\<close>

text \<open>The set of seen ids after the loop of \<^verbatim>\<open>RecentResolvedIncidents\<close> has met an incident.\<close>

definition mark :: "incident \<Rightarrow> string set \<Rightarrow> string set" where
  "mark x seen = (if i_ID x \<noteq> [] then insert (i_ID x) seen else seen)"

text \<open>The two tests an incident passes to be appended: its status, and the time window.\<close>

definition keeps :: "go_lib \<Rightarrow> time \<Rightarrow> incident \<Rightarrow> bool" where
  "keeps L cutoff inc \<longleftrightarrow>
     EqualFold L (i_Status inc) ''resolved''
     \<and> (IsZero (incidentTime L inc) \<or> \<not> incidentTime L inc < cutoff)"

section \<open>Notions used to state the bounded retry\<close>






section \<open>Concrete inputs\<close>

text \<open>The components of the test server of the repository, the sentinel in another case.\<close>

definition ex_components :: "component list" where
  "ex_components =
     [\<lparr>c_Name = ''Git Operations'', c_Status = ''operational'', c_Group = False\<rparr>,
      \<lparr>c_Name = ''Codespaces'', c_Status = ''major_outage'', c_Group = False\<rparr>,
      \<lparr>c_Name = ''visit WWW.githubstatus.com for more information'', c_Status = ''operational'',
        c_Group = False\<rparr>,
      \<lparr>c_Name = ''Group Container'', c_Status = ''operational'', c_Group = True\<rparr>]"

definition ex_only_containers :: "component list" where
  "ex_only_containers =
     [\<lparr>c_Name = ''Visit www.githubstatus.com for more information'', c_Status = ''operational'',
        c_Group = False\<rparr>,
      \<lparr>c_Name = ''Group Container'', c_Status = ''operational'', c_Group = True\<rparr>]"

definition ex_update :: "string \<Rightarrow> incidentUpdate" where
  "ex_update created = \<lparr>u_Status = ''investigating'', u_Body = ''Looking into it.'',
     u_CreatedAt = created\<rparr>"

definition ex_incident ::
  "string \<Rightarrow> string \<Rightarrow> string \<Rightarrow> string \<Rightarrow> string \<Rightarrow> string \<Rightarrow> incidentUpdate list \<Rightarrow> incident" where
  "ex_incident ident name status impact created updated updates =
     \<lparr>i_ID = ident, i_Name = name, i_Status = status, i_Impact = impact, i_Shortlink = [],
      i_CreatedAt = created, i_UpdatedAt = updated, i_IncidentUpdates = updates\<rparr>"

text \<open>Four active incidents: one of January 3, three of January 1 with different impacts and names.\<close>

definition ex_newest :: incident where
  "ex_newest = ex_incident ''n'' ''Zeta'' ''investigating'' ''none'' [] ''2024-01-03T00:00:00Z'' []"

definition ex_minor :: incident where
  "ex_minor = ex_incident ''m'' ''beta'' ''investigating'' ''minor'' [] ''2024-01-01T00:00:00Z'' []"

definition ex_critical_c :: incident where
  "ex_critical_c =
     ex_incident ''c'' ''charlie'' ''identified'' '' Critical '' [] ''2024-01-01T00:00:00Z'' []"

definition ex_critical_a :: incident where
  "ex_critical_a =
     ex_incident ''a'' ''Alpha'' ''identified'' ''critical'' [] ''2024-01-01T00:00:00Z'' []"

text \<open>
  A resolved incident without any timestamp; one whose only update has no parseable
  timestamp while its creation time parses; one whose updates come oldest first.
\<close>

definition ex_unknown :: incident where
  "ex_unknown = ex_incident [] ''Undated'' ''Resolved'' ''minor'' [] [] []"

definition ex_created_only :: incident where
  "ex_created_only =
     ex_incident ''k'' ''Created'' ''resolved'' ''minor'' ''2024-01-01T00:00:00Z'' []
       [ex_update ''yesterday'']"

definition ex_oldest_first :: incident where
  "ex_oldest_first =
     ex_incident ''o'' ''Ordered'' ''resolved'' ''minor'' [] []
       [ex_update ''2024-01-01T00:00:00Z'', ex_update ''2024-01-03T00:00:00Z'']"

text \<open>
  An incident updated on January 2; an incident with the timestamp, the impact rank and
  the lower-cased name of \<open>ex_critical_a\<close> but another id, name and status; and an
  incident created on January 1 whose only update has an empty timestamp.
\<close>

definition ex_jan2 :: incident where
  "ex_jan2 = ex_incident ''j'' ''Second'' ''resolved'' ''minor'' [] ''2024-01-02T00:00:00Z'' []"

definition ex_alpha_twin :: incident where
  "ex_alpha_twin =
     ex_incident ''t'' ''ALPHA'' ''monitoring'' ''CRITICAL'' [] ''2024-01-01T00:00:00Z'' []"

definition ex_empty_update :: incident where
  "ex_empty_update =
     ex_incident ''e'' ''Empty update'' ''resolved'' ''minor'' ''2024-01-01T00:00:00Z'' []
       [ex_update []]"

text \<open>January 10, 2024, 00:00:00 UTC.\<close>

definition ex_now :: time where
  "ex_now = 63840441600 * 1000000000"

text \<open>
  A second incident with the id of \<open>ex_created_only\<close>, and a resolved incident updated on
  January 3, 2024, 00:00:00 UTC, exactly seven days before \<open>ex_now\<close>.
\<close>

definition ex_dup :: incident where
  "ex_dup = ex_incident ''k'' ''Again'' ''resolved'' ''major'' [] ''2024-01-10T00:00:00Z'' []"

definition ex_recent :: incident where
  "ex_recent = ex_incident ''r'' ''Recent'' ''RESOLVED'' ''major'' [] ''2024-01-03T00:00:00Z'' []"

definition ex_feed :: "incident list" where
  "ex_feed = [ex_unknown, ex_minor, ex_created_only, ex_dup, ex_oldest_first, ex_recent]"

definition ex_client :: statusClient where
  "ex_client = \<lparr>componentsURL = Reply 200 (Some ex_components),
     unresolvedURL = Reply 200 (Some [ex_minor, ex_minor]),
     incidentsURL = Reply 200 (Some ex_feed)\<rparr>"

text \<open>Four updates, oldest first.\<close>

definition ex_updates :: "incidentUpdate list" where
  "ex_updates = [ex_update ''2024-01-01T00:00:00Z'', ex_update ''2024-01-02T00:00:00Z'',
     ex_update ''2024-01-03T00:00:00Z'', ex_update ''2024-01-10T00:00:00Z'']"

definition ex_cfg :: "bool \<Rightarrow> bool \<Rightarrow> string \<Rightarrow> config" where
  "ex_cfg details resolved out = \<lparr>cfg_showDetails = details, cfg_showResolved = resolved,
     cfg_showVersion = False, cfg_output = out, cfg_timeout = 10 * 1000000000\<rparr>"

text \<open>Replies for concrete runs: the \<open>n\<close>-th attempt meets the \<open>n\<close>-th element of a list.\<close>

definition replies :: "'a http_reply list \<Rightarrow> nat \<Rightarrow> 'a http_reply" where
  "replies rs n = (if 1 \<le> n \<and> n \<le> length rs then rs ! (n - 1) else DoFailed)"


section \<open>Properties\<close>

subsection \<open>The library instance meets the contract of sort.Slice\<close>

lemma mset_insert_by: "mset (insert_by lt x ys) = add_mset x (mset ys)"
  by (induction ys) auto

lemma mset_isort_by: "mset (isort_by lt xs) = mset xs"
  by (induction xs) (auto simp: mset_insert_by)

lemma set_insert_by: "set (insert_by lt x ys) = insert x (set ys)"
  by (induction ys) auto

lemma sorted_insert_by:
  assumes sw: "strict_weak lt" and srt: "sorted_wrt (\<lambda>a b. \<not> lt b a) ys"
  shows "sorted_wrt (\<lambda>a b. \<not> lt b a) (insert_by lt x ys)"
  using srt
proof (induction ys)
  case Nil
  then show ?case by simp
next
  case (Cons y ys)
  have irr: "\<And>a. \<not> lt a a"
    and tr: "\<And>a b c. lt a b \<Longrightarrow> lt b c \<Longrightarrow> lt a c"
    and ntr: "\<And>a b c. \<not> lt a b \<Longrightarrow> \<not> lt b c \<Longrightarrow> \<not> lt a c"
    using sw unfolding strict_weak_def by blast+
  show ?case
  proof (cases "lt y x")
    case True
    have "\<not> lt x y" using True irr tr by blast
    moreover have "\<forall>z\<in>set ys. \<not> lt z y" using Cons.prems by simp
    ultimately show ?thesis using True Cons by (auto simp: set_insert_by)
  next
    case False
    have "\<forall>z\<in>set ys. \<not> lt z x"
    proof
      fix z assume "z \<in> set ys"
      then have "\<not> lt z y" using Cons.prems by simp
      then show "\<not> lt z x" using False ntr by blast
    qed
    then show ?thesis using False Cons.prems by simp
  qed
qed

lemma sorted_isort_by:
  "strict_weak lt \<Longrightarrow> sorted_wrt (\<lambda>a b. \<not> lt b a) (isort_by lt xs)"
  by (induction xs) (auto intro: sorted_insert_by)

lemma sorts_isort_by: "sorts isort_by"
  unfolding sorts_def by (simp add: mset_isort_by sorted_isort_by)

lemma sort_Slice_ok_sample: "sort_Slice_ok sample_lib"
  by (simp add: sort_Slice_ok_def sample_lib_def sorts_isort_by)

lemma strict_weak_key:
  fixes key :: "'a \<Rightarrow> 'k::linorder"
  shows "strict_weak (\<lambda>a b. key a < key b)"
  unfolding strict_weak_def by auto


subsection \<open>What a sort that meets the contract returns\<close>

lemma sorts_mset: "sorts srt \<Longrightarrow> mset (srt lt xs) = mset xs"
  unfolding sorts_def by blast

lemma sorts_sorted:
  "sorts srt \<Longrightarrow> strict_weak lt \<Longrightarrow> sorted_wrt (\<lambda>a b. \<not> lt b a) (srt lt xs)"
  unfolding sorts_def by blast

subsection \<open>Components\<close>

lemma filterComponents_mset:
  assumes "sort_Slice_ok L"
  shows "mset (filterComponents L cs) =
     mset (filter (\<lambda>c. \<not> c_Group c \<and> \<not> EqualFold L (c_Name c) referenceComponent) cs)"
  using assms by (simp add: filterComponents_def sort_Slice_ok_def sorts_mset)

lemma filterComponents_sorted:
  assumes "sort_Slice_ok L"
  shows "sorted_wrt (\<lambda>a b. ToLower L (c_Name a) \<le> ToLower L (c_Name b)) (filterComponents L cs)"
proof -
  let ?lt = "\<lambda>a b. ToLower L (c_Name a) < ToLower L (c_Name b)"
  have "strict_weak ?lt" by (rule strict_weak_key)
  moreover have "sorts (sort_Slice_c L)" using assms by (simp add: sort_Slice_ok_def)
  ultimately have "sorted_wrt (\<lambda>a b. \<not> ?lt b a) (filterComponents L cs)"
    unfolding filterComponents_def Let_def by (rule sorts_sorted[rotated])
  then show ?thesis by (simp add: not_less)
qed

lemmas buildReport_defs = buildReport_def client_Components_def client_ActiveIncidents_def
  client_RecentResolvedIncidents_def Let_def

lemma buildReport_Components:
  assumes "buildReport L now client cfg = (Inr r, log)"
  shows "\<exists>comps. get (componentsURL client) = Inr comps
     \<and> r_Components r = filterComponents L comps \<and> filterComponents L comps \<noteq> []"
  using assms by (auto simp: buildReport_defs split: sum.splits prod.splits if_splits)

lemma buildReport_Active:
  assumes "buildReport L now client cfg = (Inr r, log)"
  shows "if cfg_showDetails cfg \<or> cfg_output cfg = outputJSON
         then \<exists>active. get (unresolvedURL client) = Inr active \<and> r_Active r = sortIncidents L active
         else r_Active r = []"
  using assms by (auto simp: buildReport_defs split: sum.splits prod.splits if_splits)

lemma buildReport_Resolved:
  assumes "buildReport L now client cfg = (Inr r, log)"
  shows "if cfg_showResolved cfg \<or> cfg_output cfg = outputJSON
         then \<exists>incidents. get (incidentsURL client) = Inr incidents
                \<and> r_Resolved r = sortIncidents L (recentResolved L now resolvedLookback incidents)
         else r_Resolved r = []"
  using assms by (auto simp: buildReport_defs split: sum.splits prod.splits if_splits)

lemma buildReport_asks_unresolved:
  assumes "get (componentsURL client) = Inr comps" "filterComponents L comps \<noteq> []"
  shows "UnresolvedURL \<in> set (snd (buildReport L now client cfg))
     \<longleftrightarrow> cfg_showDetails cfg \<or> cfg_output cfg = outputJSON"
  using assms by (auto simp: buildReport_defs split: sum.splits prod.splits if_splits)

lemma buildReport_empty:
  assumes "get (componentsURL client) = Inr comps" "filterComponents L comps = []"
  shows "buildReport L now client cfg = (Inl NoComponents, [ComponentsURL])"
  using assms by (auto simp: buildReport_defs split: sum.splits prod.splits if_splits)

lemma get_Reply_200: "get (Reply 200 (Some payload)) = Inr payload"
  by (simp add: get_def)

text \<open>
  Claim C8. The component list of a report is the fetched list without the group
  containers and without the entries whose name equals the reference string up to case,
  every retained component unchanged (equality of multisets of whole records), in
  ascending order of the lower-cased name.
\<close>

theorem filterComponents_spec:
  assumes "sort_Slice_ok L"
  shows "mset (filterComponents L cs) =
           mset (filter (\<lambda>c. \<not> c_Group c \<and> \<not> EqualFold L (c_Name c) referenceComponent) cs)
       \<and> sorted_wrt (\<lambda>a b. ToLower L (c_Name a) \<le> ToLower L (c_Name b)) (filterComponents L cs)
       \<and> (componentsURL client = Reply 200 (Some cs) \<and> buildReport L now client cfg = (Inr r, log)
            \<longrightarrow> r_Components r = filterComponents L cs)"
proof (intro conjI impI)
  show "mset (filterComponents L cs) =
      mset (filter (\<lambda>c. \<not> c_Group c \<and> \<not> EqualFold L (c_Name c) referenceComponent) cs)"
    using assms by (rule filterComponents_mset)
  show "sorted_wrt (\<lambda>a b. ToLower L (c_Name a) \<le> ToLower L (c_Name b)) (filterComponents L cs)"
    using assms by (rule filterComponents_sorted)
next
  assume a: "componentsURL client = Reply 200 (Some cs) \<and> buildReport L now client cfg = (Inr r, log)"
  then have "get (componentsURL client) = Inr cs" by (simp add: get_Reply_200)
  with buildReport_Components[of L now client cfg r log] a
  show "r_Components r = filterComponents L cs" by auto
qed

theorem filterComponents_spec_witness:
  "sort_Slice_ok sample_lib
   \<and> componentsURL ex_client = Reply 200 (Some ex_components)
   \<and> buildReport sample_lib ex_now ex_client (ex_cfg False False outputText) =
       (Inr \<lparr>r_Components =
               [\<lparr>c_Name = ''Codespaces'', c_Status = ''major_outage'', c_Group = False\<rparr>,
                \<lparr>c_Name = ''Git Operations'', c_Status = ''operational'', c_Group = False\<rparr>],
             r_Active = [], r_Resolved = []\<rparr>, [ComponentsURL])
   \<and> filterComponents sample_lib ex_components =
       [\<lparr>c_Name = ''Codespaces'', c_Status = ''major_outage'', c_Group = False\<rparr>,
        \<lparr>c_Name = ''Git Operations'', c_Status = ''operational'', c_Group = False\<rparr>]
   \<and> mset (filterComponents sample_lib ex_components) =
       mset (filter (\<lambda>c. \<not> c_Group c \<and> \<not> EqualFold sample_lib (c_Name c) referenceComponent)
               ex_components)
   \<and> sorted_wrt (\<lambda>a b. ToLower sample_lib (c_Name a) \<le> ToLower sample_lib (c_Name b))
       (filterComponents sample_lib ex_components)"
proof -
  have ok: "sort_Slice_ok sample_lib" by (rule sort_Slice_ok_sample)
  have url: "componentsURL ex_client = Reply 200 (Some ex_components)"
    by (simp add: ex_client_def)
  have run: "buildReport sample_lib ex_now ex_client (ex_cfg False False outputText) =
       (Inr \<lparr>r_Components =
               [\<lparr>c_Name = ''Codespaces'', c_Status = ''major_outage'', c_Group = False\<rparr>,
                \<lparr>c_Name = ''Git Operations'', c_Status = ''operational'', c_Group = False\<rparr>],
             r_Active = [], r_Resolved = []\<rparr>, [ComponentsURL])"
    by code_simp
  note inst = filterComponents_spec[OF ok, where cs = ex_components and client = ex_client
      and now = ex_now and cfg = "ex_cfg False False outputText" and log = "[ComponentsURL]"]
  from inst url run have "filterComponents sample_lib ex_components =
       [\<lparr>c_Name = ''Codespaces'', c_Status = ''major_outage'', c_Group = False\<rparr>,
        \<lparr>c_Name = ''Git Operations'', c_Status = ''operational'', c_Group = False\<rparr>]"
    by fastforce
  with inst ok url run show ?thesis by blast
qed

text \<open>
  Claim C9. When filtering leaves no component, building the report fails with the
  "no components" error after the first request, and no report is returned; a report
  that is returned has a non-empty component list.
\<close>

theorem buildReport_no_components:
  "(buildReport L now client cfg = (Inr r, log) \<longrightarrow> r_Components r \<noteq> [])
   \<and> (componentsURL client = Reply 200 (Some comps) \<and> filterComponents L comps = []
        \<longrightarrow> buildReport L now client cfg = (Inl NoComponents, [ComponentsURL]))"
proof (intro conjI impI)
  assume "buildReport L now client cfg = (Inr r, log)"
  from buildReport_Components[OF this] show "r_Components r \<noteq> []" by auto
next
  assume a: "componentsURL client = Reply 200 (Some comps) \<and> filterComponents L comps = []"
  then have "get (componentsURL client) = Inr comps" by (simp add: get_Reply_200)
  with a show "buildReport L now client cfg = (Inl NoComponents, [ComponentsURL])"
    using buildReport_empty by blast
qed

theorem buildReport_no_components_witness:
  "filterComponents sample_lib ex_only_containers = []
   \<and> buildReport sample_lib ex_now (ex_client\<lparr>componentsURL := Reply 200 (Some ex_only_containers)\<rparr>)
       (ex_cfg True True outputJSON) = (Inl NoComponents, [ComponentsURL])
   \<and> fst (buildReport sample_lib ex_now ex_client (ex_cfg False False outputText)) =
       Inr \<lparr>r_Components = filterComponents sample_lib ex_components, r_Active = [], r_Resolved = []\<rparr>
   \<and> filterComponents sample_lib ex_components \<noteq> []"
proof -
  have e: "filterComponents sample_lib ex_only_containers = []" by code_simp
  have run: "buildReport sample_lib ex_now ex_client (ex_cfg False False outputText) =
      (Inr \<lparr>r_Components = filterComponents sample_lib ex_components, r_Active = [],
        r_Resolved = []\<rparr>, [ComponentsURL])"
    by code_simp
  have "buildReport sample_lib ex_now (ex_client\<lparr>componentsURL := Reply 200 (Some ex_only_containers)\<rparr>)
       (ex_cfg True True outputJSON) = (Inl NoComponents, [ComponentsURL])"
    using buildReport_no_components[where L = sample_lib and comps = ex_only_containers
        and client = "ex_client\<lparr>componentsURL := Reply 200 (Some ex_only_containers)\<rparr>"] e
    by simp
  moreover have "filterComponents sample_lib ex_components \<noteq> []"
    using buildReport_no_components[where L = sample_lib and now = ex_now and client = ex_client
        and cfg = "ex_cfg False False outputText"
        and r = "\<lparr>r_Components = filterComponents sample_lib ex_components, r_Active = [],
          r_Resolved = []\<rparr>" and log = "[ComponentsURL]"] run
    by simp
  ultimately show ?thesis using e run by simp
qed

subsection \<open>Ranking of incidents\<close>

lemma incidentLess_iff:
  "incidentLess L a b \<longleftrightarrow> rankedBefore L a b \<and> \<not> rankedBefore L b a"
  unfolding incidentLess_def rankedBefore_def Let_def by auto

lemma not_incidentLess_iff: "\<not> incidentLess L b a \<longleftrightarrow> rankedBefore L a b"
  unfolding incidentLess_def rankedBefore_def Let_def by auto

lemma rankedBefore_refl: "rankedBefore L a a"
  unfolding rankedBefore_def by simp

lemma rankedBefore_total: "rankedBefore L a b \<or> rankedBefore L b a"
  unfolding rankedBefore_def by auto

lemma rankedBefore_trans: "rankedBefore L a b \<Longrightarrow> rankedBefore L b c \<Longrightarrow> rankedBefore L a c"
  unfolding rankedBefore_def by auto

lemma rankedBefore_antisym:
  "rankedBefore L a b \<Longrightarrow> rankedBefore L b a \<Longrightarrow>
     incidentTime L a = incidentTime L b
     \<and> impactOrder L (i_Impact a) = impactOrder L (i_Impact b)
     \<and> ToLower L (i_Name a) = ToLower L (i_Name b)"
  unfolding rankedBefore_def by auto

lemma rankedBefore_same_keys:
  assumes "incidentTime L a = incidentTime L b"
    and "impactOrder L (i_Impact a) = impactOrder L (i_Impact b)"
    and "ToLower L (i_Name a) = ToLower L (i_Name b)"
  shows "rankedBefore L a b \<and> rankedBefore L b a
     \<and> \<not> incidentLess L a b \<and> \<not> incidentLess L b a"
  using assms by (simp add: rankedBefore_def incidentLess_def)

lemma strict_weak_incidentLess: "strict_weak (incidentLess L)"
  unfolding strict_weak_def
proof (intro conjI allI impI)
  fix a show "\<not> incidentLess L a a" by (simp add: incidentLess_iff)
next
  fix a b c assume "incidentLess L a b \<and> incidentLess L b c"
  then show "incidentLess L a c"
    unfolding incidentLess_iff using rankedBefore_trans by blast
next
  fix a b c assume "\<not> incidentLess L a b \<and> \<not> incidentLess L b c"
  then show "\<not> incidentLess L a c"
    unfolding not_incidentLess_iff using rankedBefore_trans by blast
qed

lemma sortIncidents_mset: "sort_Slice_ok L \<Longrightarrow> mset (sortIncidents L xs) = mset xs"
  by (simp add: sortIncidents_def sort_Slice_ok_def sorts_mset)

lemma sortIncidents_sorted:
  assumes "sort_Slice_ok L"
  shows "sorted_wrt (rankedBefore L) (sortIncidents L xs)"
proof -
  have "sorts (sort_Slice_i L)" using assms by (simp add: sort_Slice_ok_def)
  then have "sorted_wrt (\<lambda>a b. \<not> incidentLess L b a) (sortIncidents L xs)"
    unfolding sortIncidents_def using strict_weak_incidentLess by (rule sorts_sorted)
  then show ?thesis by (simp add: not_incidentLess_iff)
qed

lemma impactOrder_ranks:
  "(ToLower L (TrimSpace L impact) = ''critical'' \<longrightarrow> impactOrder L impact = 0)
   \<and> (ToLower L (TrimSpace L impact) = ''major'' \<longrightarrow> impactOrder L impact = 1)
   \<and> (ToLower L (TrimSpace L impact) = ''minor'' \<longrightarrow> impactOrder L impact = 2)
   \<and> (ToLower L (TrimSpace L impact) = ''none'' \<longrightarrow> impactOrder L impact = 3)
   \<and> (ToLower L (TrimSpace L impact) \<notin> {''critical'', ''major'', ''minor'', ''none''}
        \<longrightarrow> impactOrder L impact = 4)"
  by (simp add: impactOrder_def Let_def)

text \<open>
  Claim C1, as the code has it. The list returned by \<^verbatim>\<open>sortIncidents\<close> of report.go is
  ordered by a chain of three keys: the timestamp that \<open>incidentTime\<close> computes, most
  recent first, then the impact rank (critical 0, major 1, minor 2, none 3, anything else
  4) ascending, then the lower-cased name ascending. The closure given to the sort is the
  strict part of that chain. The chain is a total preorder of the incidents: reflexive,
  transitive and total; two incidents are ranked both ways exactly when they have the
  same timestamp, rank and lower-cased name, and the closure then puts neither first.
\<close>

theorem sortIncidents_ranking:
  assumes "sort_Slice_ok L"
  shows "sorted_wrt (rankedBefore L) (sortIncidents L incidents)
     \<and> (\<forall>a b. incidentLess L a b \<longleftrightarrow> rankedBefore L a b \<and> \<not> rankedBefore L b a)
     \<and> (\<forall>a. rankedBefore L a a)
     \<and> (\<forall>a b. rankedBefore L a b \<or> rankedBefore L b a)
     \<and> (\<forall>a b c. rankedBefore L a b \<and> rankedBefore L b c \<longrightarrow> rankedBefore L a c)
     \<and> (\<forall>a b. rankedBefore L a b \<and> rankedBefore L b a \<longrightarrow>
           incidentTime L a = incidentTime L b
           \<and> impactOrder L (i_Impact a) = impactOrder L (i_Impact b)
           \<and> ToLower L (i_Name a) = ToLower L (i_Name b))
     \<and> (ToLower L (TrimSpace L impact) = ''critical'' \<longrightarrow> impactOrder L impact = 0)
     \<and> (ToLower L (TrimSpace L impact) = ''major'' \<longrightarrow> impactOrder L impact = 1)
     \<and> (ToLower L (TrimSpace L impact) = ''minor'' \<longrightarrow> impactOrder L impact = 2)
     \<and> (ToLower L (TrimSpace L impact) = ''none'' \<longrightarrow> impactOrder L impact = 3)
     \<and> (ToLower L (TrimSpace L impact) \<notin> {''critical'', ''major'', ''minor'', ''none''}
          \<longrightarrow> impactOrder L impact = 4)
     \<and> (\<forall>a b. incidentTime L a = incidentTime L b
           \<and> impactOrder L (i_Impact a) = impactOrder L (i_Impact b)
           \<and> ToLower L (i_Name a) = ToLower L (i_Name b)
           \<longrightarrow> rankedBefore L a b \<and> rankedBefore L b a
               \<and> \<not> incidentLess L a b \<and> \<not> incidentLess L b a)"
proof (intro conjI)
  show "sorted_wrt (rankedBefore L) (sortIncidents L incidents)"
    using assms by (rule sortIncidents_sorted)
  show "\<forall>a b. incidentLess L a b \<longleftrightarrow> rankedBefore L a b \<and> \<not> rankedBefore L b a"
    using incidentLess_iff by blast
  show "\<forall>a. rankedBefore L a a"
    using rankedBefore_refl by blast
  show "\<forall>a b. rankedBefore L a b \<or> rankedBefore L b a"
    using rankedBefore_total by blast
  show "\<forall>a b c. rankedBefore L a b \<and> rankedBefore L b c \<longrightarrow> rankedBefore L a c"
    using rankedBefore_trans by blast
  show "\<forall>a b. rankedBefore L a b \<and> rankedBefore L b a \<longrightarrow>
           incidentTime L a = incidentTime L b
           \<and> impactOrder L (i_Impact a) = impactOrder L (i_Impact b)
           \<and> ToLower L (i_Name a) = ToLower L (i_Name b)"
    using rankedBefore_antisym by blast
  show "ToLower L (TrimSpace L impact) = ''critical'' \<longrightarrow> impactOrder L impact = 0"
    by (simp add: impactOrder_def)
  show "ToLower L (TrimSpace L impact) = ''major'' \<longrightarrow> impactOrder L impact = 1"
    by (simp add: impactOrder_def)
  show "ToLower L (TrimSpace L impact) = ''minor'' \<longrightarrow> impactOrder L impact = 2"
    by (simp add: impactOrder_def)
  show "ToLower L (TrimSpace L impact) = ''none'' \<longrightarrow> impactOrder L impact = 3"
    by (simp add: impactOrder_def)
  show "ToLower L (TrimSpace L impact) \<notin> {''critical'', ''major'', ''minor'', ''none''}
          \<longrightarrow> impactOrder L impact = 4"
    by (simp add: impactOrder_def)
  show "\<forall>a b. incidentTime L a = incidentTime L b
           \<and> impactOrder L (i_Impact a) = impactOrder L (i_Impact b)
           \<and> ToLower L (i_Name a) = ToLower L (i_Name b)
           \<longrightarrow> rankedBefore L a b \<and> rankedBefore L b a
               \<and> \<not> incidentLess L a b \<and> \<not> incidentLess L b a"
    by (simp add: rankedBefore_same_keys)
qed

theorem sortIncidents_ranking_witness:
  "sort_Slice_ok sample_lib
   \<and> sortIncidents sample_lib [ex_minor, ex_newest, ex_critical_c, ex_critical_a] =
       [ex_newest, ex_critical_a, ex_critical_c, ex_minor]
   \<and> sorted_wrt (rankedBefore sample_lib) [ex_newest, ex_critical_a, ex_critical_c, ex_minor]
   \<and> rankedBefore sample_lib ex_critical_a ex_critical_c
   \<and> rankedBefore sample_lib ex_critical_c ex_minor
   \<and> rankedBefore sample_lib ex_critical_a ex_minor
   \<and> ToLower sample_lib (TrimSpace sample_lib (i_Impact ex_critical_c)) = ''critical''
   \<and> impactOrder sample_lib (i_Impact ex_critical_c) = 0
   \<and> ToLower sample_lib (TrimSpace sample_lib (i_Impact ex_minor)) = ''minor''
   \<and> impactOrder sample_lib (i_Impact ex_minor) = 2
   \<and> incidentTime sample_lib ex_critical_a = incidentTime sample_lib ex_alpha_twin
   \<and> impactOrder sample_lib (i_Impact ex_critical_a)
       = impactOrder sample_lib (i_Impact ex_alpha_twin)
   \<and> ToLower sample_lib (i_Name ex_critical_a) = ToLower sample_lib (i_Name ex_alpha_twin)
   \<and> rankedBefore sample_lib ex_critical_a ex_alpha_twin
   \<and> rankedBefore sample_lib ex_alpha_twin ex_critical_a
   \<and> \<not> incidentLess sample_lib ex_critical_a ex_alpha_twin
   \<and> \<not> incidentLess sample_lib ex_alpha_twin ex_critical_a"
proof -
  have ok: "sort_Slice_ok sample_lib" by (rule sort_Slice_ok_sample)
  have run: "sortIncidents sample_lib [ex_minor, ex_newest, ex_critical_c, ex_critical_a] =
       [ex_newest, ex_critical_a, ex_critical_c, ex_minor]"
    by code_simp
  have c: "ToLower sample_lib (TrimSpace sample_lib (i_Impact ex_critical_c)) = ''critical''"
    by code_simp
  have m: "ToLower sample_lib (TrimSpace sample_lib (i_Impact ex_minor)) = ''minor''"
    by code_simp
  have ac: "rankedBefore sample_lib ex_critical_a ex_critical_c" by code_simp
  have cm: "rankedBefore sample_lib ex_critical_c ex_minor" by code_simp
  note inst_c = sortIncidents_ranking[OF ok,
      where incidents = "[ex_minor, ex_newest, ex_critical_c, ex_critical_a]"
        and impact = "i_Impact ex_critical_c"]
  note inst_m = sortIncidents_ranking[OF ok, where incidents = "[]"
        and impact = "i_Impact ex_minor"]
  have "sorted_wrt (rankedBefore sample_lib)
      (sortIncidents sample_lib [ex_minor, ex_newest, ex_critical_c, ex_critical_a])"
    by (rule inst_c[THEN conjunct1])
  then have srt:
    "sorted_wrt (rankedBefore sample_lib) [ex_newest, ex_critical_a, ex_critical_c, ex_minor]"
    by (simp only: run)
  have tr: "\<forall>a b c. rankedBefore sample_lib a b \<and> rankedBefore sample_lib b c
      \<longrightarrow> rankedBefore sample_lib a c"
    by (rule inst_c[THEN conjunct2, THEN conjunct2, THEN conjunct2, THEN conjunct2, THEN conjunct1])
  have am: "rankedBefore sample_lib ex_critical_a ex_minor"
    using tr ac cm by blast
  have "ToLower sample_lib (TrimSpace sample_lib (i_Impact ex_critical_c)) = ''critical''
      \<longrightarrow> impactOrder sample_lib (i_Impact ex_critical_c) = 0"
    by (rule inst_c[THEN conjunct2, THEN conjunct2, THEN conjunct2, THEN conjunct2, THEN conjunct2,
          THEN conjunct2, THEN conjunct1])
  then have r0: "impactOrder sample_lib (i_Impact ex_critical_c) = 0" using c by blast
  have "ToLower sample_lib (TrimSpace sample_lib (i_Impact ex_minor)) = ''minor''
      \<longrightarrow> impactOrder sample_lib (i_Impact ex_minor) = 2"
    by (rule inst_m[THEN conjunct2, THEN conjunct2, THEN conjunct2, THEN conjunct2, THEN conjunct2,
          THEN conjunct2, THEN conjunct2, THEN conjunct2, THEN conjunct1])
  then have r2: "impactOrder sample_lib (i_Impact ex_minor) = 2" using m by blast
  have k1: "incidentTime sample_lib ex_critical_a = incidentTime sample_lib ex_alpha_twin"
    by code_simp
  have k2: "impactOrder sample_lib (i_Impact ex_critical_a)
       = impactOrder sample_lib (i_Impact ex_alpha_twin)"
    by code_simp
  have k3: "ToLower sample_lib (i_Name ex_critical_a) = ToLower sample_lib (i_Name ex_alpha_twin)"
    by code_simp
  have same: "\<forall>a b. incidentTime sample_lib a = incidentTime sample_lib b
           \<and> impactOrder sample_lib (i_Impact a) = impactOrder sample_lib (i_Impact b)
           \<and> ToLower sample_lib (i_Name a) = ToLower sample_lib (i_Name b)
           \<longrightarrow> rankedBefore sample_lib a b \<and> rankedBefore sample_lib b a
               \<and> \<not> incidentLess sample_lib a b \<and> \<not> incidentLess sample_lib b a"
    by (rule inst_m[THEN conjunct2, THEN conjunct2, THEN conjunct2, THEN conjunct2, THEN conjunct2,
          THEN conjunct2, THEN conjunct2, THEN conjunct2, THEN conjunct2, THEN conjunct2,
          THEN conjunct2])
  have tw: "rankedBefore sample_lib ex_critical_a ex_alpha_twin
      \<and> rankedBefore sample_lib ex_alpha_twin ex_critical_a
      \<and> \<not> incidentLess sample_lib ex_critical_a ex_alpha_twin
      \<and> \<not> incidentLess sample_lib ex_alpha_twin ex_critical_a"
    using same k1 k2 k3 by blast
  show ?thesis
    using ok run srt ac cm am c r0 m r2 k1 k2 k3
      tw[THEN conjunct1] tw[THEN conjunct2, THEN conjunct1]
      tw[THEN conjunct2, THEN conjunct2, THEN conjunct1]
      tw[THEN conjunct2, THEN conjunct2, THEN conjunct2]
    by (intro conjI)
qed

text \<open>
  The chain of the specification is another one where the two timestamps differ: the
  updates of \<open>ex_oldest_first\<close> run from January 1 to January 3, so its known timestamp
  is January 3 and the specification ranks it before \<open>ex_jan2\<close>, while \<open>incidentTime\<close>
  is January 1 and \<^verbatim>\<open>sortIncidents\<close> ranks it after. And neither chain orders the two
  different incidents \<open>ex_critical_a\<close> and \<open>ex_alpha_twin\<close>: the sort returns them in the
  order in which it received them.
\<close>

lemma incidentTime_agrees_with_spec:
  assumes "parseTime L (i_UpdatedAt inc) \<noteq> None \<or> i_IncidentUpdates inc = []"
  shows "incidentTime L inc = spec_knownTimestamp L inc"
  using assms
  by (auto simp: incidentTime_def spec_knownTimestamp_def map_filter_simps split: option.splits)

theorem sortIncidents_not_known_timestamp_order:
  "sortIncidents sample_lib [ex_oldest_first, ex_jan2] = [ex_jan2, ex_oldest_first]
   \<and> spec_knownTimestamp sample_lib ex_oldest_first = 63839836800 * 1000000000
   \<and> spec_knownTimestamp sample_lib ex_jan2 = 63839750400 * 1000000000
   \<and> incidentTime sample_lib ex_oldest_first = 63839664000 * 1000000000
   \<and> incidentTime sample_lib ex_jan2 = 63839750400 * 1000000000
   \<and> spec_rankedBefore sample_lib ex_oldest_first ex_jan2
   \<and> \<not> spec_rankedBefore sample_lib ex_jan2 ex_oldest_first
   \<and> \<not> sorted_wrt (spec_rankedBefore sample_lib) (sortIncidents sample_lib [ex_oldest_first, ex_jan2])
   \<and> ex_critical_a \<noteq> ex_alpha_twin
   \<and> rankedBefore sample_lib ex_critical_a ex_alpha_twin
   \<and> rankedBefore sample_lib ex_alpha_twin ex_critical_a
   \<and> spec_rankedBefore sample_lib ex_critical_a ex_alpha_twin
   \<and> spec_rankedBefore sample_lib ex_alpha_twin ex_critical_a
   \<and> \<not> incidentLess sample_lib ex_critical_a ex_alpha_twin
   \<and> \<not> incidentLess sample_lib ex_alpha_twin ex_critical_a
   \<and> sortIncidents sample_lib [ex_critical_a, ex_alpha_twin] = [ex_critical_a, ex_alpha_twin]
   \<and> sortIncidents sample_lib [ex_alpha_twin, ex_critical_a] = [ex_alpha_twin, ex_critical_a]"
proof (intro conjI)
  show run: "sortIncidents sample_lib [ex_oldest_first, ex_jan2] = [ex_jan2, ex_oldest_first]"
    by code_simp
  show "spec_knownTimestamp sample_lib ex_oldest_first = 63839836800 * 1000000000"
    by code_simp
  show "spec_knownTimestamp sample_lib ex_jan2 = 63839750400 * 1000000000"
    by code_simp
  show "incidentTime sample_lib ex_oldest_first = 63839664000 * 1000000000"
    by code_simp
  show "incidentTime sample_lib ex_jan2 = 63839750400 * 1000000000"
    by code_simp
  show "spec_rankedBefore sample_lib ex_oldest_first ex_jan2"
    by code_simp
  show no: "\<not> spec_rankedBefore sample_lib ex_jan2 ex_oldest_first"
    by code_simp
  show "\<not> sorted_wrt (spec_rankedBefore sample_lib)
      (sortIncidents sample_lib [ex_oldest_first, ex_jan2])"
    unfolding run using no by simp
  show "ex_critical_a \<noteq> ex_alpha_twin"
    by (simp add: ex_critical_a_def ex_alpha_twin_def ex_incident_def)
  show "rankedBefore sample_lib ex_critical_a ex_alpha_twin"
    by code_simp
  show "rankedBefore sample_lib ex_alpha_twin ex_critical_a"
    by code_simp
  show "spec_rankedBefore sample_lib ex_critical_a ex_alpha_twin"
    by code_simp
  show "spec_rankedBefore sample_lib ex_alpha_twin ex_critical_a"
    by code_simp
  show "\<not> incidentLess sample_lib ex_critical_a ex_alpha_twin"
    by code_simp
  show "\<not> incidentLess sample_lib ex_alpha_twin ex_critical_a"
    by code_simp
  show "sortIncidents sample_lib [ex_critical_a, ex_alpha_twin] = [ex_critical_a, ex_alpha_twin]"
    by code_simp
  show "sortIncidents sample_lib [ex_alpha_twin, ex_critical_a] = [ex_alpha_twin, ex_critical_a]"
    by code_simp
qed

subsection \<open>The slice handed to sortIncidents\<close>

lemma copy_slice_fresh: "copy_slice (replicate (length src) z) src = src"
  by (simp add: copy_slice_def)

lemma sortIncidents_store_eq:
  assumes "incidents < length heap"
  shows "sortIncidents_store L heap incidents =
     (heap @ [sortIncidents L (heap ! incidents)], length heap)"
proof -
  let ?h1 = "heap @ [replicate (length (heap ! incidents)) zeroIncident]"
  have a: "?h1 ! length heap = replicate (length (heap ! incidents)) zeroIncident"
    by simp
  have b: "?h1 ! incidents = heap ! incidents"
    using assms by (simp add: nth_append)
  have c: "?h1[length heap := heap ! incidents] = heap @ [heap ! incidents]"
    by simp
  have d: "(heap @ [heap ! incidents]) ! length heap = heap ! incidents"
    by simp
  have e: "(heap @ [heap ! incidents])[length heap := sortIncidents L (heap ! incidents)]
      = heap @ [sortIncidents L (heap ! incidents)]"
    by simp
  show ?thesis
    unfolding sortIncidents_store_def Let_def a b copy_slice_fresh c d
    using e by (simp add: sortIncidents_def)
qed

lemma sortIncidents_store_spec:
  assumes "incidents < length heap" "sortIncidents_store L heap incidents = (heap', out)"
  shows "out = length heap \<and> length heap' = Suc (length heap)
     \<and> (\<forall>a < length heap. heap' ! a = heap ! a)
     \<and> heap' ! out = sortIncidents L (heap ! incidents)"
proof -
  from assms have h: "heap' = heap @ [sortIncidents L (heap ! incidents)]" "out = length heap"
    by (simp_all add: sortIncidents_store_eq)
  show ?thesis unfolding h by (simp add: nth_append)
qed

text \<open>
  Claim C10. \<^verbatim>\<open>sortIncidents\<close> returns a permutation of its input (equal multisets of
  whole incidents, so none is added, dropped or changed), in a newly allocated array;
  the array of the caller, like every array that existed before the call, holds after
  the call what it held before.
\<close>

theorem sortIncidents_permutes_a_copy:
  assumes "sort_Slice_ok L"
    and "incidents < length heap"
    and "sortIncidents_store L heap incidents = (heap', out)"
  shows "mset (sortIncidents L (heap ! incidents)) = mset (heap ! incidents)
     \<and> heap' ! out = sortIncidents L (heap ! incidents)
     \<and> out \<noteq> incidents
     \<and> heap' ! incidents = heap ! incidents
     \<and> (\<forall>a < length heap. heap' ! a = heap ! a)"
proof -
  from sortIncidents_store_spec[OF assms(2,3)]
  have s: "out = length heap" "\<forall>a < length heap. heap' ! a = heap ! a"
    "heap' ! out = sortIncidents L (heap ! incidents)"
    by blast+
  have "mset (sortIncidents L (heap ! incidents)) = mset (heap ! incidents)"
    using assms(1) by (rule sortIncidents_mset)
  moreover have "out \<noteq> incidents" using s(1) assms(2) by simp
  moreover have "heap' ! incidents = heap ! incidents" using s(2) assms(2) by simp
  ultimately show ?thesis using s by blast
qed

theorem sortIncidents_permutes_a_copy_witness:
  "sort_Slice_ok sample_lib
   \<and> (0::nat) < length [[ex_minor, ex_newest]]
   \<and> sortIncidents_store sample_lib [[ex_minor, ex_newest]] 0 =
       ([[ex_minor, ex_newest], [ex_newest, ex_minor]], 1)
   \<and> mset (sortIncidents sample_lib ([[ex_minor, ex_newest]] ! 0)) = mset [ex_minor, ex_newest]
   \<and> sortIncidents sample_lib [ex_minor, ex_newest] = [ex_newest, ex_minor]"
proof -
  have ok: "sort_Slice_ok sample_lib" by (rule sort_Slice_ok_sample)
  have len: "(0::nat) < length [[ex_minor, ex_newest]]" by simp
  have run: "sortIncidents_store sample_lib [[ex_minor, ex_newest]] 0 =
       ([[ex_minor, ex_newest], [ex_newest, ex_minor]], 1)"
    by code_simp
  from sortIncidents_permutes_a_copy[OF ok len run]
  have "mset (sortIncidents sample_lib ([[ex_minor, ex_newest]] ! 0)) = mset [ex_minor, ex_newest]"
    and "[[ex_minor, ex_newest], [ex_newest, ex_minor]] ! 1 =
       sortIncidents sample_lib ([[ex_minor, ex_newest]] ! 0)"
    by simp_all
  then show ?thesis using ok len run by simp
qed

subsection \<open>The loop of RecentResolvedIncidents\<close>

lemma resolvedLoop_acc:
  "resolvedLoop L c xs seen results = results @ resolvedLoop L c xs seen []"
proof (induction xs arbitrary: seen results)
  case Nil
  then show ?case by simp
next
  case (Cons x xs)
  show ?case
    using Cons.IH[of _ "results @ [x]"] Cons.IH[of _ "[x]"] Cons.IH[of _ results]
    by (simp add: Let_def)
qed

lemma resolvedLoop_skip:
  "\<not> EqualFold L (i_Status x) ''resolved'' \<or> (i_ID x \<noteq> [] \<and> i_ID x \<in> seen) \<Longrightarrow>
   resolvedLoop L c (x # xs) seen [] = resolvedLoop L c xs seen []"
  by auto

lemma resolvedLoop_old:
  "EqualFold L (i_Status x) ''resolved'' \<Longrightarrow> i_ID x = [] \<or> i_ID x \<notin> seen \<Longrightarrow>
   \<not> IsZero (incidentTime L x) \<and> incidentTime L x < c \<Longrightarrow>
   resolvedLoop L c (x # xs) seen [] = resolvedLoop L c xs (mark x seen) []"
  by (auto simp: Let_def mark_def)

lemma resolvedLoop_keep:
  "EqualFold L (i_Status x) ''resolved'' \<Longrightarrow> i_ID x = [] \<or> i_ID x \<notin> seen \<Longrightarrow>
   IsZero (incidentTime L x) \<or> \<not> incidentTime L x < c \<Longrightarrow>
   resolvedLoop L c (x # xs) seen [] = x # resolvedLoop L c xs (mark x seen) []"
  using resolvedLoop_acc[of L c xs _ "[x]"] by (auto simp: Let_def mark_def)

lemma resolvedLoop_cases:
  obtains
    (skip) "\<not> EqualFold L (i_Status x) ''resolved'' \<or> (i_ID x \<noteq> [] \<and> i_ID x \<in> seen)"
      "resolvedLoop L c (x # xs) seen [] = resolvedLoop L c xs seen []"
  | (old) "EqualFold L (i_Status x) ''resolved''" "i_ID x = [] \<or> i_ID x \<notin> seen"
      "\<not> keeps L c x"
      "resolvedLoop L c (x # xs) seen [] = resolvedLoop L c xs (mark x seen) []"
  | (keep) "EqualFold L (i_Status x) ''resolved''" "i_ID x = [] \<or> i_ID x \<notin> seen"
      "keeps L c x"
      "resolvedLoop L c (x # xs) seen [] = x # resolvedLoop L c xs (mark x seen) []"
proof (cases "\<not> EqualFold L (i_Status x) ''resolved'' \<or> (i_ID x \<noteq> [] \<and> i_ID x \<in> seen)")
  case True
  then show ?thesis using skip resolvedLoop_skip[of L x seen c xs] by blast
next
  case False
  then have a: "EqualFold L (i_Status x) ''resolved''" "i_ID x = [] \<or> i_ID x \<notin> seen" by blast+
  show ?thesis
  proof (cases "IsZero (incidentTime L x) \<or> \<not> incidentTime L x < c")
    case True
    then have "keeps L c x" using a by (simp add: keeps_def)
    then show ?thesis using keep a resolvedLoop_keep[OF a True] by blast
  next
    case False
    then have "\<not> keeps L c x" by (simp add: keeps_def)
    moreover have "\<not> IsZero (incidentTime L x) \<and> incidentTime L x < c" using False by blast
    ultimately show ?thesis using old a resolvedLoop_old[OF a] by blast
  qed
qed

lemma resolvedLoop_sound:
  "inc \<in> set (resolvedLoop L c xs seen []) \<Longrightarrow>
     inc \<in> set xs \<and> keeps L c inc \<and> (i_ID inc = [] \<or> i_ID inc \<notin> seen)"
proof (induction xs arbitrary: seen)
  case Nil
  then show ?case by simp
next
  case (Cons x xs)
  show ?case
  proof (cases rule: resolvedLoop_cases[of L x seen c xs])
    case skip
    then show ?thesis using Cons by simp
  next
    case old
    then have "inc \<in> set (resolvedLoop L c xs (mark x seen) [])" using Cons.prems by simp
    from Cons.IH[OF this] show ?thesis by (auto simp: mark_def split: if_splits)
  next
    case keep
    then have "inc = x \<or> inc \<in> set (resolvedLoop L c xs (mark x seen) [])"
      using Cons.prems by simp
    then show ?thesis
    proof
      assume "inc = x"
      then show ?thesis using keep by simp
    next
      assume "inc \<in> set (resolvedLoop L c xs (mark x seen) [])"
      from Cons.IH[OF this] show ?thesis by (auto simp: mark_def split: if_splits)
    qed
  qed
qed

lemma resolvedLoop_distinct:
  "distinct (filter (\<lambda>i. i \<noteq> []) (map i_ID (resolvedLoop L c xs seen [])))"
proof (induction xs arbitrary: seen)
  case Nil
  then show ?case by simp
next
  case (Cons x xs)
  show ?case
  proof (cases rule: resolvedLoop_cases[of L x seen c xs])
    case skip
    then show ?thesis using Cons.IH by simp
  next
    case old
    then show ?thesis using Cons.IH by simp
  next
    case keep
    have "i_ID x \<notin> i_ID ` set (resolvedLoop L c xs (mark x seen) [])" if ne: "i_ID x \<noteq> []"
    proof
      assume "i_ID x \<in> i_ID ` set (resolvedLoop L c xs (mark x seen) [])"
      then obtain y where y: "y \<in> set (resolvedLoop L c xs (mark x seen) [])" "i_ID y = i_ID x"
        by auto
      from resolvedLoop_sound[OF y(1)] have "i_ID y = [] \<or> i_ID y \<notin> mark x seen" by simp
      then show False using ne y(2) by (simp add: mark_def)
    qed
    then show ?thesis using keep(4) Cons.IH[of "mark x seen"] by simp
  qed
qed

lemma resolvedLoop_fixed:
  assumes "\<forall>inc\<in>set ys. keeps L c inc"
    and "distinct (filter (\<lambda>i. i \<noteq> []) (map i_ID ys))"
    and "\<forall>inc\<in>set ys. i_ID inc = [] \<or> i_ID inc \<notin> seen"
  shows "resolvedLoop L c ys seen [] = ys"
  using assms
proof (induction ys arbitrary: seen)
  case Nil
  then show ?case by simp
next
  case (Cons y ys)
  have k: "keeps L c y" using Cons.prems(1) by simp
  have s: "i_ID y = [] \<or> i_ID y \<notin> seen" using Cons.prems(3) by simp
  have d: "distinct (filter (\<lambda>i. i \<noteq> []) (map i_ID ys))"
    using Cons.prems(2) by (simp split: if_splits)
  have fresh: "i_ID inc = [] \<or> i_ID inc \<notin> mark y seen" if "inc \<in> set ys" for inc
  proof (cases "i_ID inc = []")
    case True
    then show ?thesis by simp
  next
    case False
    have "i_ID inc \<notin> seen" using Cons.prems(3) that False by auto
    moreover have "i_ID inc \<noteq> i_ID y"
    proof
      assume e: "i_ID inc = i_ID y"
      have "i_ID inc \<in> set (filter (\<lambda>i. i \<noteq> []) (map i_ID ys))" using that False by simp
      then show False using Cons.prems(2) e False by simp
    qed
    ultimately show ?thesis by (simp add: mark_def)
  qed
  have ih: "resolvedLoop L c ys (mark y seen) [] = ys"
    by (rule Cons.IH) (use Cons.prems(1) d fresh in auto)
  show ?case
  proof (cases rule: resolvedLoop_cases[of L y seen c ys])
    case skip
    then show ?thesis using k s by (simp add: keeps_def)
  next
    case old
    then show ?thesis using k by simp
  next
    case keep
    then show ?thesis using ih by simp
  qed
qed

lemma recentResolved_idem:
  "recentResolved L now lb (recentResolved L now lb xs) = recentResolved L now lb xs"
  unfolding recentResolved_def Let_def
proof (rule resolvedLoop_fixed)
  show "\<forall>inc\<in>set (resolvedLoop L (now - lb) xs {} []). keeps L (now - lb) inc"
    using resolvedLoop_sound by blast
  show "distinct (filter (\<lambda>i. i \<noteq> []) (map i_ID (resolvedLoop L (now - lb) xs {} [])))"
    by (rule resolvedLoop_distinct)
  show "\<forall>inc\<in>set (resolvedLoop L (now - lb) xs {} []). i_ID inc = [] \<or> i_ID inc \<notin> {}"
    by simp
qed

lemma resolvedLoop_first:
  assumes "inc \<in> set (resolvedLoop L c xs seen [])" "i_ID inc \<noteq> []"
  shows "find (\<lambda>x. EqualFold L (i_Status x) ''resolved'' \<and> i_ID x = i_ID inc) xs = Some inc"
  using assms(1)
proof (induction xs arbitrary: seen)
  case Nil
  then show ?case by simp
next
  case (Cons x xs)
  let ?P = "\<lambda>x. EqualFold L (i_Status x) ''resolved'' \<and> i_ID x = i_ID inc"
  have snd: "keeps L c inc" "i_ID inc \<notin> seen"
    using resolvedLoop_sound[OF Cons.prems] assms(2) by auto
  show ?case
  proof (cases rule: resolvedLoop_cases[of L x seen c xs])
    case skip
    then have "\<not> ?P x" using snd(2) assms(2) by auto
    moreover have "find ?P xs = Some inc" using Cons.IH[of seen] Cons.prems skip(2) by simp
    ultimately show ?thesis by auto
  next
    case old
    have in_tl: "inc \<in> set (resolvedLoop L c xs (mark x seen) [])" using Cons.prems old(4) by simp
    from resolvedLoop_sound[OF in_tl] assms(2) have "i_ID inc \<notin> mark x seen" by simp
    then have "i_ID x \<noteq> i_ID inc" using assms(2) by (auto simp: mark_def split: if_splits)
    then have "\<not> ?P x" by simp
    moreover have "find ?P xs = Some inc" using Cons.IH[OF in_tl] .
    ultimately show ?thesis by auto
  next
    case keep
    show ?thesis
    proof (cases "inc \<in> set (resolvedLoop L c xs (mark x seen) [])")
      case True
      from resolvedLoop_sound[OF True] assms(2) have "i_ID inc \<notin> mark x seen" by simp
      then have "i_ID x \<noteq> i_ID inc" using assms(2) by (auto simp: mark_def split: if_splits)
      then have "\<not> ?P x" by simp
      moreover have "find ?P xs = Some inc" using Cons.IH[OF True] .
      ultimately show ?thesis by auto
    next
      case False
      then have "inc = x" using Cons.prems keep(4) by simp
      then show ?thesis using keep(1) by simp
    qed
  qed
qed

lemma resolvedLoop_keeps_unknown:
  assumes "inc \<in> set xs" "keeps L c inc" "i_ID inc = []"
  shows "inc \<in> set (resolvedLoop L c xs seen [])"
  using assms(1)
proof (induction xs arbitrary: seen)
  case Nil
  then show ?case by simp
next
  case (Cons x xs)
  show ?case
  proof (cases "inc = x")
    case True
    show ?thesis
    proof (cases rule: resolvedLoop_cases[of L x seen c xs])
      case skip
      then show ?thesis using True assms(2,3) by (simp add: keeps_def)
    next
      case old
      then show ?thesis using True assms(2) by simp
    next
      case keep
      then show ?thesis using True by simp
    qed
  next
    case False
    then have "inc \<in> set xs" using Cons.prems by simp
    then have "inc \<in> set (resolvedLoop L c xs seen [])"
      "inc \<in> set (resolvedLoop L c xs (mark x seen) [])"
      using Cons.IH by blast+
    then show ?thesis
      by (cases rule: resolvedLoop_cases[of L x seen c xs]) simp_all
  qed
qed


lemma recentResolved_sound:
  assumes "inc \<in> set (recentResolved L now lookback incidents)"
  shows "inc \<in> set incidents \<and> EqualFold L (i_Status inc) ''resolved''
     \<and> (incidentTime L inc = zeroTime \<or> now - lookback \<le> incidentTime L inc)"
proof -
  from assms have "inc \<in> set (resolvedLoop L (now - lookback) incidents {} [])"
    by (simp add: recentResolved_def)
  from resolvedLoop_sound[OF this] show ?thesis
    by (auto simp: keeps_def IsZero_def)
qed

lemma firstParsed_none:
  "\<forall>u\<in>set us. parseTime L (u_CreatedAt u) = None \<Longrightarrow> firstParsed L us = zeroTime"
  by (induction us) auto

lemma firstParsed_first:
  "\<forall>v\<in>set before. parseTime L (u_CreatedAt v) = None \<Longrightarrow> parseTime L (u_CreatedAt u) = Some t
     \<Longrightarrow> firstParsed L (before @ u # after) = t"
  by (induction before) auto

lemma parseTime_empty: "parseTime L [] = None"
  by (simp add: parseTime_def)

lemma incidentTime_undated:
  assumes "i_UpdatedAt inc = []" "i_CreatedAt inc = []"
    "\<forall>u\<in>set (i_IncidentUpdates inc). u_CreatedAt u = []"
  shows "incidentTime L inc = zeroTime"
proof -
  have "\<forall>u\<in>set (i_IncidentUpdates inc). parseTime L (u_CreatedAt u) = None"
    using assms(3) by (simp add: parseTime_empty)
  then have "firstParsed L (i_IncidentUpdates inc) = zeroTime" by (rule firstParsed_none)
  then show ?thesis using assms(1,2) by (simp add: incidentTime_def parseTime_empty)
qed

lemma sortIncidents_set: "sort_Slice_ok L \<Longrightarrow> set (sortIncidents L xs) = set xs"
  using sortIncidents_mset[of L xs] by (metis set_mset_mset)

lemma sortIncidents_distinct_ids:
  assumes "sort_Slice_ok L"
  shows "distinct (filter (\<lambda>i. i \<noteq> []) (map i_ID (sortIncidents L xs)))
     \<longleftrightarrow> distinct (filter (\<lambda>i. i \<noteq> []) (map i_ID xs))"
proof -
  have "mset (filter (\<lambda>i. i \<noteq> []) (map i_ID (sortIncidents L xs)))
      = mset (filter (\<lambda>i. i \<noteq> []) (map i_ID xs))"
    using sortIncidents_mset[OF assms, of xs] by (metis mset_filter mset_map)
  then show ?thesis by (rule mset_eq_imp_distinct_iff)
qed

lemma resolvedLoop_keeps_first:
  assumes "keeps L c inc" "i_ID inc \<noteq> []"
  shows "i_ID inc \<notin> seen \<Longrightarrow>
     find (\<lambda>x. EqualFold L (i_Status x) ''resolved'' \<and> i_ID x = i_ID inc) xs = Some inc \<Longrightarrow>
     inc \<in> set (resolvedLoop L c xs seen [])"
proof (induction xs arbitrary: seen)
  case Nil
  then show ?case by simp
next
  case (Cons x xs)
  let ?P = "\<lambda>x. EqualFold L (i_Status x) ''resolved'' \<and> i_ID x = i_ID inc"
  show ?case
  proof (cases "?P x")
    case True
    then have e: "x = inc" using Cons.prems(2) by auto
    show ?thesis
    proof (cases rule: resolvedLoop_cases[of L x seen c xs])
      case skip
      then show ?thesis using e assms Cons.prems(1) by (simp add: keeps_def)
    next
      case old
      then show ?thesis using e assms(1) by simp
    next
      case keep
      then show ?thesis using e by simp
    qed
  next
    case False
    then have f: "find ?P xs = Some inc" using Cons.prems(2) by auto
    show ?thesis
    proof (cases rule: resolvedLoop_cases[of L x seen c xs])
      case skip
      then show ?thesis using Cons.IH[OF Cons.prems(1) f] by simp
    next
      case old
      have "i_ID inc \<notin> mark x seen"
        using Cons.prems(1) False old(1) by (auto simp: mark_def)
      from Cons.IH[OF this f] show ?thesis using old(4) by simp
    next
      case keep
      have "i_ID inc \<notin> mark x seen"
        using Cons.prems(1) False keep(1) by (auto simp: mark_def)
      from Cons.IH[OF this f] show ?thesis using keep(4) by simp
    qed
  qed
qed

lemma recentResolved_complete:
  assumes "inc \<in> set incidents" "EqualFold L (i_Status inc) ''resolved''"
    "incidentTime L inc = zeroTime \<or> now - lookback \<le> incidentTime L inc"
    "i_ID inc = []
     \<or> find (\<lambda>x. EqualFold L (i_Status x) ''resolved'' \<and> i_ID x = i_ID inc) incidents = Some inc"
  shows "inc \<in> set (recentResolved L now lookback incidents)"
proof -
  have k: "keeps L (now - lookback) inc"
    using assms(2,3) by (auto simp: keeps_def IsZero_def)
  show ?thesis
  proof (cases "i_ID inc = []")
    case True
    then show ?thesis
      unfolding recentResolved_def Let_def using resolvedLoop_keeps_unknown[OF assms(1) k] by blast
  next
    case False
    then have "find (\<lambda>x. EqualFold L (i_Status x) ''resolved'' \<and> i_ID x = i_ID inc) incidents
        = Some inc"
      using assms(4) by blast
    then show ?thesis
      unfolding recentResolved_def Let_def
      using resolvedLoop_keeps_first[OF k False, of "{}" incidents] by simp
  qed
qed

subsection \<open>The resolved list\<close>

text \<open>
  Claim C3, as the code has it. Every incident of the resolved list comes from the feed,
  has a status equal to "resolved" up to case, and has an \<open>incidentTime\<close> that is either
  the zero time or not before \<open>now\<close> minus the lookback window, which is seven days in
  \<^verbatim>\<open>buildReport\<close>. An incident of the feed with that status and such an \<open>incidentTime\<close>
  is in the list exactly when its id is empty or it is the first incident of the feed
  with its id and that status. The zero time is never left out by the window, and the
  zero time is the \<open>incidentTime\<close> of an incident whose timestamps are all empty, and
  also of an incident whose \<^verbatim>\<open>updatedAt\<close> does not parse and whose updates exist but have
  no parseable timestamp, whatever its \<^verbatim>\<open>createdAt\<close>. The filter is a total function.
\<close>

theorem recentResolved_window:
  "(inc \<in> set (recentResolved L now lookback incidents) \<longrightarrow>
      inc \<in> set incidents \<and> EqualFold L (i_Status inc) ''resolved''
      \<and> (incidentTime L inc = zeroTime \<or> now - lookback \<le> incidentTime L inc)
      \<and> (i_ID inc = []
           \<or> find (\<lambda>x. EqualFold L (i_Status x) ''resolved'' \<and> i_ID x = i_ID inc) incidents
               = Some inc))
   \<and> (i_UpdatedAt inc = [] \<and> i_CreatedAt inc = []
        \<and> (\<forall>u\<in>set (i_IncidentUpdates inc). u_CreatedAt u = [])
        \<longrightarrow> incidentTime L inc = zeroTime)
   \<and> (inc \<in> set incidents \<and> EqualFold L (i_Status inc) ''resolved''
        \<and> (incidentTime L inc = zeroTime \<or> now - lookback \<le> incidentTime L inc)
        \<and> (i_ID inc = []
             \<or> find (\<lambda>x. EqualFold L (i_Status x) ''resolved'' \<and> i_ID x = i_ID inc) incidents
                 = Some inc)
        \<longrightarrow> inc \<in> set (recentResolved L now lookback incidents))
   \<and> (sort_Slice_ok L \<and> buildReport L now client cfg = (Inr r, log) \<and> inc \<in> set (r_Resolved r)
        \<longrightarrow> EqualFold L (i_Status inc) ''resolved''
            \<and> (incidentTime L inc = zeroTime
                \<or> now - 7 * 24 * 3600 * 1000000000 \<le> incidentTime L inc))
   \<and> (parseTime L (i_UpdatedAt inc) = None \<and> i_IncidentUpdates inc \<noteq> []
        \<and> (\<forall>u\<in>set (i_IncidentUpdates inc). parseTime L (u_CreatedAt u) = None)
        \<longrightarrow> incidentTime L inc = zeroTime)"
proof -
  have c1: "inc \<in> set (recentResolved L now lookback incidents) \<longrightarrow>
      inc \<in> set incidents \<and> EqualFold L (i_Status inc) ''resolved''
      \<and> (incidentTime L inc = zeroTime \<or> now - lookback \<le> incidentTime L inc)
      \<and> (i_ID inc = []
           \<or> find (\<lambda>x. EqualFold L (i_Status x) ''resolved'' \<and> i_ID x = i_ID inc) incidents
               = Some inc)"
  proof
    assume m: "inc \<in> set (recentResolved L now lookback incidents)"
    have "i_ID inc = []
        \<or> find (\<lambda>x. EqualFold L (i_Status x) ''resolved'' \<and> i_ID x = i_ID inc) incidents
            = Some inc"
    proof (cases "i_ID inc = []")
      case True
      then show ?thesis by blast
    next
      case False
      from m have "inc \<in> set (resolvedLoop L (now - lookback) incidents {} [])"
        by (simp add: recentResolved_def)
      from resolvedLoop_first[OF this False] show ?thesis by blast
    qed
    with recentResolved_sound[OF m]
    show "inc \<in> set incidents \<and> EqualFold L (i_Status inc) ''resolved''
      \<and> (incidentTime L inc = zeroTime \<or> now - lookback \<le> incidentTime L inc)
      \<and> (i_ID inc = []
           \<or> find (\<lambda>x. EqualFold L (i_Status x) ''resolved'' \<and> i_ID x = i_ID inc) incidents
               = Some inc)"
      by blast
  qed
  have c5: "parseTime L (i_UpdatedAt inc) = None \<and> i_IncidentUpdates inc \<noteq> []
        \<and> (\<forall>u\<in>set (i_IncidentUpdates inc). parseTime L (u_CreatedAt u) = None)
        \<longrightarrow> incidentTime L inc = zeroTime"
  proof
    assume a: "parseTime L (i_UpdatedAt inc) = None \<and> i_IncidentUpdates inc \<noteq> []
        \<and> (\<forall>u\<in>set (i_IncidentUpdates inc). parseTime L (u_CreatedAt u) = None)"
    then have "firstParsed L (i_IncidentUpdates inc) = zeroTime" using firstParsed_none by blast
    with a show "incidentTime L inc = zeroTime" by (simp add: incidentTime_def)
  qed
  have c2: "i_UpdatedAt inc = [] \<and> i_CreatedAt inc = []
        \<and> (\<forall>u\<in>set (i_IncidentUpdates inc). u_CreatedAt u = [])
        \<longrightarrow> incidentTime L inc = zeroTime"
    using incidentTime_undated by blast
  have c3: "inc \<in> set incidents \<and> EqualFold L (i_Status inc) ''resolved''
        \<and> (incidentTime L inc = zeroTime \<or> now - lookback \<le> incidentTime L inc)
        \<and> (i_ID inc = []
             \<or> find (\<lambda>x. EqualFold L (i_Status x) ''resolved'' \<and> i_ID x = i_ID inc) incidents
                 = Some inc)
        \<longrightarrow> inc \<in> set (recentResolved L now lookback incidents)"
    using recentResolved_complete[of inc incidents L now lookback] by blast
  have c4: "sort_Slice_ok L \<and> buildReport L now client cfg = (Inr r, log) \<and> inc \<in> set (r_Resolved r)
        \<longrightarrow> EqualFold L (i_Status inc) ''resolved''
            \<and> (incidentTime L inc = zeroTime
                \<or> now - 7 * 24 * 3600 * 1000000000 \<le> incidentTime L inc)"
  proof
    assume a: "sort_Slice_ok L \<and> buildReport L now client cfg = (Inr r, log)
        \<and> inc \<in> set (r_Resolved r)"
    then have run: "buildReport L now client cfg = (Inr r, log)" and ok: "sort_Slice_ok L"
      and mem: "inc \<in> set (r_Resolved r)" by blast+
    from mem have ne: "r_Resolved r \<noteq> []" by auto
    from buildReport_Resolved[OF run] ne obtain incidents where
      "r_Resolved r = sortIncidents L (recentResolved L now resolvedLookback incidents)"
      by (auto split: if_splits)
    with mem ok have "inc \<in> set (recentResolved L now resolvedLookback incidents)"
      by (simp add: sortIncidents_set)
    from recentResolved_sound[OF this]
    show "EqualFold L (i_Status inc) ''resolved''
            \<and> (incidentTime L inc = zeroTime
                \<or> now - 7 * 24 * 3600 * 1000000000 \<le> incidentTime L inc)"
      by (simp add: resolvedLookback_def)
  qed
  show ?thesis by (rule conjI[OF c1 conjI[OF c2 conjI[OF c3 conjI[OF c4 c5]]]])
qed

theorem recentResolved_window_witness:
  "recentResolved sample_lib ex_now resolvedLookback ex_feed = [ex_unknown, ex_created_only, ex_recent]
   \<and> ex_recent \<in> set ex_feed \<and> EqualFold sample_lib (i_Status ex_recent) ''resolved''
   \<and> ex_now - resolvedLookback \<le> incidentTime sample_lib ex_recent
   \<and> i_UpdatedAt ex_unknown = [] \<and> i_CreatedAt ex_unknown = []
   \<and> i_IncidentUpdates ex_unknown = []
   \<and> incidentTime sample_lib ex_unknown = zeroTime
   \<and> ex_unknown \<in> set ex_feed \<and> EqualFold sample_lib (i_Status ex_unknown) ''resolved''
   \<and> i_ID ex_unknown = []
   \<and> ex_unknown \<in> set (recentResolved sample_lib ex_now resolvedLookback ex_feed)
   \<and> sort_Slice_ok sample_lib
   \<and> r_Resolved (projr (fst (buildReport sample_lib ex_now ex_client (ex_cfg False True outputText))))
       = [ex_recent, ex_created_only, ex_unknown]
   \<and> parseTime sample_lib (i_UpdatedAt ex_empty_update) = None
   \<and> i_IncidentUpdates ex_empty_update = [ex_update []]
   \<and> parseTime sample_lib (u_CreatedAt (ex_update [])) = None
   \<and> incidentTime sample_lib ex_empty_update = zeroTime
   \<and> EqualFold sample_lib (i_Status ex_empty_update) ''resolved''
   \<and> find (\<lambda>x. EqualFold sample_lib (i_Status x) ''resolved'' \<and> i_ID x = i_ID ex_empty_update)
        [ex_jan2, ex_empty_update] = Some ex_empty_update
   \<and> ex_empty_update \<in> set (recentResolved sample_lib ex_now resolvedLookback
        [ex_jan2, ex_empty_update])"
proof -
  have run: "recentResolved sample_lib ex_now resolvedLookback ex_feed =
      [ex_unknown, ex_created_only, ex_recent]"
    by code_simp
  have rep: "buildReport sample_lib ex_now ex_client (ex_cfg False True outputText) =
      (Inr \<lparr>r_Components = filterComponents sample_lib ex_components, r_Active = [],
             r_Resolved = [ex_recent, ex_created_only, ex_unknown]\<rparr>,
       [ComponentsURL, IncidentsURL])"
    by code_simp
  have ok: "sort_Slice_ok sample_lib" by (rule sort_Slice_ok_sample)
  have u: "i_UpdatedAt ex_unknown = []" "i_CreatedAt ex_unknown = []"
    "i_IncidentUpdates ex_unknown = []" "i_ID ex_unknown = []"
    by (simp_all add: ex_unknown_def ex_incident_def)
  have f: "ex_unknown \<in> set ex_feed" "ex_recent \<in> set ex_feed" by (simp_all add: ex_feed_def)
  have st: "EqualFold sample_lib (i_Status ex_unknown) ''resolved''"
    "EqualFold sample_lib (i_Status ex_recent) ''resolved''"
    by code_simp+
  note w_unknown = recentResolved_window[where L = sample_lib and inc = ex_unknown
      and now = ex_now and lookback = resolvedLookback and incidents = ex_feed]
  note w_recent = recentResolved_window[where L = sample_lib and inc = ex_recent
      and now = ex_now and lookback = resolvedLookback and incidents = ex_feed]
  have z: "incidentTime sample_lib ex_unknown = zeroTime"
    using w_unknown[THEN conjunct2, THEN conjunct1] u by simp
  have kept: "ex_unknown \<in> set (recentResolved sample_lib ex_now resolvedLookback ex_feed)"
    using w_unknown[THEN conjunct2, THEN conjunct2, THEN conjunct1] f st u z by blast
  have "ex_recent \<in> set (recentResolved sample_lib ex_now resolvedLookback ex_feed)"
    by (simp add: run)
  with w_recent[THEN conjunct1]
  have "incidentTime sample_lib ex_recent = zeroTime
      \<or> ex_now - resolvedLookback \<le> incidentTime sample_lib ex_recent"
    by blast
  moreover have "incidentTime sample_lib ex_recent \<noteq> zeroTime" by code_simp
  ultimately have win: "ex_now - resolvedLookback \<le> incidentTime sample_lib ex_recent" by blast
  have r: "r_Resolved (projr (fst (buildReport sample_lib ex_now ex_client
      (ex_cfg False True outputText)))) = [ex_recent, ex_created_only, ex_unknown]"
    by (simp add: rep)
  note w_empty = recentResolved_window[where L = sample_lib and inc = ex_empty_update
      and now = ex_now and lookback = resolvedLookback and incidents = "[ex_jan2, ex_empty_update]"]
  have e1: "parseTime sample_lib (i_UpdatedAt ex_empty_update) = None" by code_simp
  have e2: "i_IncidentUpdates ex_empty_update = [ex_update []]"
    by (simp add: ex_empty_update_def ex_incident_def)
  have e3: "parseTime sample_lib (u_CreatedAt (ex_update [])) = None" by code_simp
  have e4: "incidentTime sample_lib ex_empty_update = zeroTime"
    using w_empty[THEN conjunct2, THEN conjunct2, THEN conjunct2, THEN conjunct2] e1 e2 e3
    by simp
  have e5: "EqualFold sample_lib (i_Status ex_empty_update) ''resolved''" by code_simp
  have e6: "find (\<lambda>x. EqualFold sample_lib (i_Status x) ''resolved''
        \<and> i_ID x = i_ID ex_empty_update) [ex_jan2, ex_empty_update] = Some ex_empty_update"
    by code_simp
  have e7: "ex_empty_update \<in> set (recentResolved sample_lib ex_now resolvedLookback
        [ex_jan2, ex_empty_update])"
    using w_empty[THEN conjunct2, THEN conjunct2, THEN conjunct1] e4 e5 e6 by simp
  show ?thesis using run f st win u z kept ok r e1 e2 e3 e4 e5 e6 e7 by (intro conjI)
qed

text \<open>
  Against the claim as stated: \<open>ex_unknown\<close> has no timestamp at all and is kept;
  \<open>ex_created_only\<close> and \<open>ex_empty_update\<close> were created on January 1, nine days
  before \<open>ex_now\<close>, which is their known timestamp in the words of the specification,
  and are kept; \<open>ex_jan2\<close>, one day younger, is dropped.
\<close>

theorem recentResolved_keeps_zero_time:
  "recentResolved sample_lib ex_now resolvedLookback [ex_unknown] = [ex_unknown]
   \<and> incidentTime sample_lib ex_unknown = zeroTime
   \<and> i_CreatedAt ex_unknown = [] \<and> i_UpdatedAt ex_unknown = [] \<and> i_IncidentUpdates ex_unknown = []
   \<and> zeroTime < ex_now - resolvedLookback
   \<and> recentResolved sample_lib ex_now resolvedLookback
        [ex_unknown, ex_created_only, ex_empty_update, ex_jan2]
       = [ex_unknown, ex_created_only, ex_empty_update]
   \<and> parseTime sample_lib (i_CreatedAt ex_created_only) = Some (63839664000 * 1000000000)
   \<and> spec_knownTimestamp sample_lib ex_created_only = 63839664000 * 1000000000
   \<and> incidentTime sample_lib ex_created_only = zeroTime
   \<and> parseTime sample_lib (i_CreatedAt ex_empty_update) = Some (63839664000 * 1000000000)
   \<and> spec_knownTimestamp sample_lib ex_empty_update = 63839664000 * 1000000000
   \<and> incidentTime sample_lib ex_empty_update = zeroTime
   \<and> spec_knownTimestamp sample_lib ex_jan2 = 63839750400 * 1000000000
   \<and> ex_now - resolvedLookback = 63839836800 * 1000000000
   \<and> (63839664000 * 1000000000 :: int) < 63839836800 * 1000000000"
proof (intro conjI)
  show "recentResolved sample_lib ex_now resolvedLookback [ex_unknown] = [ex_unknown]"
    by code_simp
  show "incidentTime sample_lib ex_unknown = zeroTime" by code_simp
  show "zeroTime < ex_now - resolvedLookback" by code_simp
  show "recentResolved sample_lib ex_now resolvedLookback
        [ex_unknown, ex_created_only, ex_empty_update, ex_jan2]
       = [ex_unknown, ex_created_only, ex_empty_update]"
    by code_simp
  show "parseTime sample_lib (i_CreatedAt ex_created_only) = Some (63839664000 * 1000000000)"
    by code_simp
  show "spec_knownTimestamp sample_lib ex_created_only = 63839664000 * 1000000000"
    by code_simp
  show "incidentTime sample_lib ex_created_only = zeroTime" by code_simp
  show "parseTime sample_lib (i_CreatedAt ex_empty_update) = Some (63839664000 * 1000000000)"
    by code_simp
  show "spec_knownTimestamp sample_lib ex_empty_update = 63839664000 * 1000000000"
    by code_simp
  show "incidentTime sample_lib ex_empty_update = zeroTime" by code_simp
  show "spec_knownTimestamp sample_lib ex_jan2 = 63839750400 * 1000000000" by code_simp
  show "ex_now - resolvedLookback = 63839836800 * 1000000000" by code_simp
  show "(63839664000 * 1000000000 :: int) < 63839836800 * 1000000000" by simp
qed (simp_all add: ex_unknown_def ex_incident_def)

subsection \<open>Deduplication by id\<close>

text \<open>
  Claim C5, as the code has it. In the list computed by \<^verbatim>\<open>RecentResolvedIncidents\<close>, and
  in the Resolved list of every report, no non-empty id occurs twice; an incident with a
  non-empty id that is in the list is the first incident of the feed with that id and the
  status "resolved"; filtering the filtered list again changes nothing. The Active list
  is the sorted feed of unresolved incidents and is not deduplicated.
\<close>

theorem recentResolved_dedup:
  "distinct (filter (\<lambda>i. i \<noteq> []) (map i_ID (recentResolved L now lookback incidents)))
   \<and> (inc \<in> set (recentResolved L now lookback incidents) \<and> i_ID inc \<noteq> [] \<longrightarrow>
        find (\<lambda>x. EqualFold L (i_Status x) ''resolved'' \<and> i_ID x = i_ID inc) incidents = Some inc)
   \<and> recentResolved L now lookback (recentResolved L now lookback incidents)
        = recentResolved L now lookback incidents
   \<and> (sort_Slice_ok L \<and> buildReport L now client cfg = (Inr r, log) \<longrightarrow>
        distinct (filter (\<lambda>i. i \<noteq> []) (map i_ID (r_Resolved r))))
   \<and> (buildReport L now client cfg = (Inr r, log)
        \<and> (cfg_showDetails cfg \<or> cfg_output cfg = outputJSON) \<longrightarrow>
        (\<exists>active. get (unresolvedURL client) = Inr active \<and> r_Active r = sortIncidents L active))"
proof -
  have c1: "distinct (filter (\<lambda>i. i \<noteq> []) (map i_ID (recentResolved L now lookback incidents)))"
    unfolding recentResolved_def Let_def by (rule resolvedLoop_distinct)
  have c2: "inc \<in> set (recentResolved L now lookback incidents) \<and> i_ID inc \<noteq> [] \<longrightarrow>
        find (\<lambda>x. EqualFold L (i_Status x) ''resolved'' \<and> i_ID x = i_ID inc) incidents = Some inc"
    unfolding recentResolved_def Let_def using resolvedLoop_first by blast
  have c3: "recentResolved L now lookback (recentResolved L now lookback incidents)
        = recentResolved L now lookback incidents"
    by (rule recentResolved_idem)
  have c4: "sort_Slice_ok L \<and> buildReport L now client cfg = (Inr r, log) \<longrightarrow>
        distinct (filter (\<lambda>i. i \<noteq> []) (map i_ID (r_Resolved r)))"
  proof
    assume a: "sort_Slice_ok L \<and> buildReport L now client cfg = (Inr r, log)"
    then have ok: "sort_Slice_ok L" and run: "buildReport L now client cfg = (Inr r, log)"
      by blast+
    show "distinct (filter (\<lambda>i. i \<noteq> []) (map i_ID (r_Resolved r)))"
    proof (cases "r_Resolved r = []")
      case True
      then show ?thesis by simp
    next
      case False
      with buildReport_Resolved[OF run] obtain feed where
        "r_Resolved r = sortIncidents L (recentResolved L now resolvedLookback feed)"
        by (auto split: if_splits)
      then show ?thesis
        using sortIncidents_distinct_ids[OF ok] resolvedLoop_distinct
        by (simp add: recentResolved_def)
    qed
  qed
  have c5: "buildReport L now client cfg = (Inr r, log)
        \<and> (cfg_showDetails cfg \<or> cfg_output cfg = outputJSON) \<longrightarrow>
        (\<exists>active. get (unresolvedURL client) = Inr active \<and> r_Active r = sortIncidents L active)"
  proof
    assume a: "buildReport L now client cfg = (Inr r, log)
        \<and> (cfg_showDetails cfg \<or> cfg_output cfg = outputJSON)"
    then have run: "buildReport L now client cfg = (Inr r, log)" by blast
    from buildReport_Active[OF run] a
    show "\<exists>active. get (unresolvedURL client) = Inr active \<and> r_Active r = sortIncidents L active"
      by (simp split: if_splits)
  qed
  show ?thesis by (rule conjI[OF c1 conjI[OF c2 conjI[OF c3 conjI[OF c4 c5]]]])
qed

theorem recentResolved_dedup_witness:
  "recentResolved sample_lib ex_now resolvedLookback ex_feed = [ex_unknown, ex_created_only, ex_recent]
   \<and> ex_created_only \<in> set (recentResolved sample_lib ex_now resolvedLookback ex_feed)
   \<and> i_ID ex_created_only \<noteq> [] \<and> i_ID ex_dup = i_ID ex_created_only
   \<and> find (\<lambda>x. EqualFold sample_lib (i_Status x) ''resolved'' \<and> i_ID x = i_ID ex_created_only)
        ex_feed = Some ex_created_only
   \<and> distinct (filter (\<lambda>i. i \<noteq> []) (map i_ID [ex_unknown, ex_created_only, ex_recent]))
   \<and> recentResolved sample_lib ex_now resolvedLookback [ex_unknown, ex_created_only, ex_recent]
        = [ex_unknown, ex_created_only, ex_recent]
   \<and> sort_Slice_ok sample_lib
   \<and> buildReport sample_lib ex_now ex_client (ex_cfg True True outputText) =
       (Inr \<lparr>r_Components = filterComponents sample_lib ex_components,
             r_Active = [ex_minor, ex_minor],
             r_Resolved = [ex_recent, ex_created_only, ex_unknown]\<rparr>,
        [ComponentsURL, UnresolvedURL, IncidentsURL])
   \<and> distinct (filter (\<lambda>i. i \<noteq> []) (map i_ID [ex_recent, ex_created_only, ex_unknown]))"
proof -
  have run: "recentResolved sample_lib ex_now resolvedLookback ex_feed =
      [ex_unknown, ex_created_only, ex_recent]"
    by code_simp
  have rep: "buildReport sample_lib ex_now ex_client (ex_cfg True True outputText) =
       (Inr \<lparr>r_Components = filterComponents sample_lib ex_components,
             r_Active = [ex_minor, ex_minor],
             r_Resolved = [ex_recent, ex_created_only, ex_unknown]\<rparr>,
        [ComponentsURL, UnresolvedURL, IncidentsURL])"
    by code_simp
  have ok: "sort_Slice_ok sample_lib" by (rule sort_Slice_ok_sample)
  have ids: "i_ID ex_created_only \<noteq> []" "i_ID ex_dup = i_ID ex_created_only"
    by (simp_all add: ex_created_only_def ex_dup_def ex_incident_def)
  have mem: "ex_created_only \<in> set (recentResolved sample_lib ex_now resolvedLookback ex_feed)"
    by (simp add: run)
  note inst = recentResolved_dedup[where L = sample_lib and now = ex_now
      and lookback = resolvedLookback and incidents = ex_feed and inc = ex_created_only
      and client = ex_client and cfg = "ex_cfg True True outputText"
      and r = "\<lparr>r_Components = filterComponents sample_lib ex_components,
             r_Active = [ex_minor, ex_minor],
             r_Resolved = [ex_recent, ex_created_only, ex_unknown]\<rparr>"
      and log = "[ComponentsURL, UnresolvedURL, IncidentsURL]"]
  have d: "distinct (filter (\<lambda>i. i \<noteq> []) (map i_ID [ex_unknown, ex_created_only, ex_recent]))"
    using inst[THEN conjunct1] by (simp only: run)
  have fst: "find (\<lambda>x. EqualFold sample_lib (i_Status x) ''resolved''
        \<and> i_ID x = i_ID ex_created_only) ex_feed = Some ex_created_only"
    using inst[THEN conjunct2, THEN conjunct1] mem ids(1) by blast
  have idem: "recentResolved sample_lib ex_now resolvedLookback
      [ex_unknown, ex_created_only, ex_recent] = [ex_unknown, ex_created_only, ex_recent]"
    using inst[THEN conjunct2, THEN conjunct2, THEN conjunct1] by (simp only: run)
  have "distinct (filter (\<lambda>i. i \<noteq> []) (map i_ID (r_Resolved
      \<lparr>r_Components = filterComponents sample_lib ex_components,
             r_Active = [ex_minor, ex_minor],
             r_Resolved = [ex_recent, ex_created_only, ex_unknown]\<rparr>)))"
    using inst[THEN conjunct2, THEN conjunct2, THEN conjunct2, THEN conjunct1] ok rep by blast
  then have d2: "distinct (filter (\<lambda>i. i \<noteq> []) (map i_ID [ex_recent, ex_created_only, ex_unknown]))"
    by simp
  show ?thesis using run mem ids fst d idem ok rep d2 by (intro conjI)
qed

theorem buildReport_Active_duplicates:
  "buildReport sample_lib ex_now ex_client (ex_cfg True False outputText) =
     (Inr \<lparr>r_Components = filterComponents sample_lib ex_components,
           r_Active = [ex_minor, ex_minor], r_Resolved = []\<rparr>,
      [ComponentsURL, UnresolvedURL])
   \<and> i_ID ex_minor = ''m''"
proof (intro conjI)
  show "buildReport sample_lib ex_now ex_client (ex_cfg True False outputText) =
     (Inr \<lparr>r_Components = filterComponents sample_lib ex_components,
           r_Active = [ex_minor, ex_minor], r_Resolved = []\<rparr>,
      [ComponentsURL, UnresolvedURL])"
    by code_simp
  show "i_ID ex_minor = ''m''" by (simp add: ex_minor_def ex_incident_def)
qed

subsection \<open>The requests of buildReport\<close>

lemma buildReport_asks_only_if:
  "UnresolvedURL \<in> set (snd (buildReport L now client cfg))
     \<Longrightarrow> cfg_showDetails cfg \<or> cfg_output cfg = outputJSON"
  by (auto simp: buildReport_defs split: sum.splits prod.splits if_splits)

text \<open>
  Claim C6, as the code has it. \<^verbatim>\<open>buildReport\<close> asks for the unresolved incidents exactly
  when the components were fetched and are not all filtered out and the details flag is
  set or JSON output is requested; the Active list of the report is then the sorted
  reply. With neither the details flag nor JSON output, also when the resolved flag is
  set, the request is not made and the Active list is empty.
\<close>

theorem buildReport_fetches_active:
  "(UnresolvedURL \<in> set (snd (buildReport L now client cfg))
       \<longrightarrow> cfg_showDetails cfg \<or> cfg_output cfg = outputJSON)
   \<and> (componentsURL client = Reply 200 (Some comps) \<and> filterComponents L comps \<noteq> []
        \<and> (cfg_showDetails cfg \<or> cfg_output cfg = outputJSON)
       \<longrightarrow> UnresolvedURL \<in> set (snd (buildReport L now client cfg)))
   \<and> (buildReport L now client cfg = (Inr r, log)
        \<and> (cfg_showDetails cfg \<or> cfg_output cfg = outputJSON)
       \<longrightarrow> (\<exists>active. get (unresolvedURL client) = Inr active
              \<and> r_Active r = sortIncidents L active))
   \<and> (buildReport L now client cfg = (Inr r, log)
        \<and> \<not> cfg_showDetails cfg \<and> cfg_output cfg \<noteq> outputJSON
       \<longrightarrow> r_Active r = [] \<and> UnresolvedURL \<notin> set log)"
proof -
  have c1: "UnresolvedURL \<in> set (snd (buildReport L now client cfg))
       \<longrightarrow> cfg_showDetails cfg \<or> cfg_output cfg = outputJSON"
    using buildReport_asks_only_if by blast
  have c2: "componentsURL client = Reply 200 (Some comps) \<and> filterComponents L comps \<noteq> []
        \<and> (cfg_showDetails cfg \<or> cfg_output cfg = outputJSON)
       \<longrightarrow> UnresolvedURL \<in> set (snd (buildReport L now client cfg))"
  proof
    assume a: "componentsURL client = Reply 200 (Some comps) \<and> filterComponents L comps \<noteq> []
        \<and> (cfg_showDetails cfg \<or> cfg_output cfg = outputJSON)"
    then have "get (componentsURL client) = Inr comps" by (simp add: get_Reply_200)
    with a show "UnresolvedURL \<in> set (snd (buildReport L now client cfg))"
      using buildReport_asks_unresolved by blast
  qed
  have c3: "buildReport L now client cfg = (Inr r, log)
        \<and> (cfg_showDetails cfg \<or> cfg_output cfg = outputJSON)
       \<longrightarrow> (\<exists>active. get (unresolvedURL client) = Inr active
              \<and> r_Active r = sortIncidents L active)"
  proof
    assume a: "buildReport L now client cfg = (Inr r, log)
        \<and> (cfg_showDetails cfg \<or> cfg_output cfg = outputJSON)"
    then have run: "buildReport L now client cfg = (Inr r, log)" by blast
    from buildReport_Active[OF run] a
    show "\<exists>active. get (unresolvedURL client) = Inr active \<and> r_Active r = sortIncidents L active"
      by (simp split: if_splits)
  qed
  have c4: "buildReport L now client cfg = (Inr r, log)
        \<and> \<not> cfg_showDetails cfg \<and> cfg_output cfg \<noteq> outputJSON
       \<longrightarrow> r_Active r = [] \<and> UnresolvedURL \<notin> set log"
  proof
    assume a: "buildReport L now client cfg = (Inr r, log)
        \<and> \<not> cfg_showDetails cfg \<and> cfg_output cfg \<noteq> outputJSON"
    then have run: "buildReport L now client cfg = (Inr r, log)" by blast
    from buildReport_Active[OF run] a have "r_Active r = []" by (simp split: if_splits)
    moreover have "UnresolvedURL \<notin> set log"
      using buildReport_asks_only_if[of L now client cfg] run a by auto
    ultimately show "r_Active r = [] \<and> UnresolvedURL \<notin> set log" by blast
  qed
  show ?thesis by (rule conjI[OF c1 conjI[OF c2 conjI[OF c3 c4]]])
qed

theorem buildReport_fetches_active_witness:
  "componentsURL ex_client = Reply 200 (Some ex_components)
   \<and> filterComponents sample_lib ex_components \<noteq> []
   \<and> cfg_output (ex_cfg False False outputJSON) = outputJSON
   \<and> buildReport sample_lib ex_now ex_client (ex_cfg False False outputJSON) =
       (Inr \<lparr>r_Components = filterComponents sample_lib ex_components,
             r_Active = [ex_minor, ex_minor],
             r_Resolved = [ex_recent, ex_created_only, ex_unknown]\<rparr>,
        [ComponentsURL, UnresolvedURL, IncidentsURL])
   \<and> UnresolvedURL \<in> set (snd (buildReport sample_lib ex_now ex_client (ex_cfg False False outputJSON)))
   \<and> get (unresolvedURL ex_client) = Inr [ex_minor, ex_minor]
   \<and> sortIncidents sample_lib [ex_minor, ex_minor] = [ex_minor, ex_minor]
   \<and> \<not> cfg_showDetails (ex_cfg False False outputText)
   \<and> cfg_output (ex_cfg False False outputText) \<noteq> outputJSON
   \<and> buildReport sample_lib ex_now ex_client (ex_cfg False False outputText) =
       (Inr \<lparr>r_Components = filterComponents sample_lib ex_components, r_Active = [],
             r_Resolved = []\<rparr>, [ComponentsURL])
   \<and> UnresolvedURL \<notin> set [ComponentsURL]"
proof -
  have url: "componentsURL ex_client = Reply 200 (Some ex_components)"
    by (simp add: ex_client_def)
  have ne: "filterComponents sample_lib ex_components \<noteq> []" by code_simp
  have j: "cfg_output (ex_cfg False False outputJSON) = outputJSON" by (simp add: ex_cfg_def)
  have t: "\<not> cfg_showDetails (ex_cfg False False outputText)"
    "cfg_output (ex_cfg False False outputText) \<noteq> outputJSON"
    by (simp_all add: ex_cfg_def outputText_def outputJSON_def)
  have runj: "buildReport sample_lib ex_now ex_client (ex_cfg False False outputJSON) =
       (Inr \<lparr>r_Components = filterComponents sample_lib ex_components,
             r_Active = [ex_minor, ex_minor],
             r_Resolved = [ex_recent, ex_created_only, ex_unknown]\<rparr>,
        [ComponentsURL, UnresolvedURL, IncidentsURL])"
    by code_simp
  have runt: "buildReport sample_lib ex_now ex_client (ex_cfg False False outputText) =
       (Inr \<lparr>r_Components = filterComponents sample_lib ex_components, r_Active = [],
             r_Resolved = []\<rparr>, [ComponentsURL])"
    by code_simp
  have g: "get (unresolvedURL ex_client) = Inr [ex_minor, ex_minor]"
    by (simp add: ex_client_def get_Reply_200)
  note instj = buildReport_fetches_active[where L = sample_lib and now = ex_now
      and client = ex_client and cfg = "ex_cfg False False outputJSON" and comps = ex_components
      and r = "\<lparr>r_Components = filterComponents sample_lib ex_components,
             r_Active = [ex_minor, ex_minor],
             r_Resolved = [ex_recent, ex_created_only, ex_unknown]\<rparr>"
      and log = "[ComponentsURL, UnresolvedURL, IncidentsURL]"]
  note instt = buildReport_fetches_active[where L = sample_lib and now = ex_now
      and client = ex_client and cfg = "ex_cfg False False outputText" and comps = ex_components
      and r = "\<lparr>r_Components = filterComponents sample_lib ex_components, r_Active = [],
             r_Resolved = []\<rparr>"
      and log = "[ComponentsURL]"]
  have asked: "UnresolvedURL \<in> set (snd (buildReport sample_lib ex_now ex_client
      (ex_cfg False False outputJSON)))"
    using instj[THEN conjunct2, THEN conjunct1] url ne j by blast
  have "\<exists>active. get (unresolvedURL ex_client) = Inr active
      \<and> r_Active \<lparr>r_Components = filterComponents sample_lib ex_components,
             r_Active = [ex_minor, ex_minor],
             r_Resolved = [ex_recent, ex_created_only, ex_unknown]\<rparr>
        = sortIncidents sample_lib active"
    using instj[THEN conjunct2, THEN conjunct2, THEN conjunct1] runj j by blast
  then have srt: "sortIncidents sample_lib [ex_minor, ex_minor] = [ex_minor, ex_minor]"
    using g by auto
  have "UnresolvedURL \<notin> set [ComponentsURL]"
    using instt[THEN conjunct2, THEN conjunct2, THEN conjunct2] runt t by blast
  then show ?thesis using url ne j runj asked g srt t runt by (intro conjI)
qed

theorem buildReport_resolved_only:
  "cfg_showResolved (ex_cfg False True outputText)
   \<and> unresolvedURL ex_client = Reply 200 (Some [ex_minor, ex_minor])
   \<and> buildReport sample_lib ex_now ex_client (ex_cfg False True outputText) =
       (Inr \<lparr>r_Components = filterComponents sample_lib ex_components, r_Active = [],
             r_Resolved = [ex_recent, ex_created_only, ex_unknown]\<rparr>,
        [ComponentsURL, IncidentsURL])"
proof (intro conjI)
  show "cfg_showResolved (ex_cfg False True outputText)" by (simp add: ex_cfg_def)
  show "unresolvedURL ex_client = Reply 200 (Some [ex_minor, ex_minor])"
    by (simp add: ex_client_def)
  show "buildReport sample_lib ex_now ex_client (ex_cfg False True outputText) =
       (Inr \<lparr>r_Components = filterComponents sample_lib ex_components, r_Active = [],
             r_Resolved = [ex_recent, ex_created_only, ex_unknown]\<rparr>,
        [ComponentsURL, IncidentsURL])"
    by code_simp
qed

subsection \<open>The known timestamp of an incident\<close>

lemma incidentTime_updated:
  "parseTime L (i_UpdatedAt inc) = Some t \<Longrightarrow> incidentTime L inc = t"
  by (simp add: incidentTime_def)

lemma incidentTime_no_updates:
  "parseTime L (i_UpdatedAt inc) = None \<Longrightarrow> i_IncidentUpdates inc = [] \<Longrightarrow>
   incidentTime L inc = (case parseTime L (i_CreatedAt inc) of Some t \<Rightarrow> t | None \<Rightarrow> zeroTime)"
  by (simp add: incidentTime_def)

lemma incidentTime_updates:
  "parseTime L (i_UpdatedAt inc) = None \<Longrightarrow> i_IncidentUpdates inc \<noteq> [] \<Longrightarrow>
   incidentTime L inc = firstParsed L (i_IncidentUpdates inc)"
  by (simp add: incidentTime_def)

text \<open>
  Claim C2, as the code has it (release 0.3.0). The known timestamp of an incident is the
  parsed \<^verbatim>\<open>updatedAt\<close> when that parses. Otherwise, for an incident without updates, it
  is the parsed \<^verbatim>\<open>createdAt\<close> when that parses and the zero time when it does not. For
  an incident with updates it is the timestamp of the first update, in the order of the
  feed, whose timestamp parses, and the zero time when none parses: \<^verbatim>\<open>createdAt\<close> is read
  only when there is no update.
\<close>

theorem incidentTime_cases:
  "(parseTime L (i_UpdatedAt inc) = Some t \<longrightarrow> incidentTime L inc = t)
   \<and> (parseTime L (i_UpdatedAt inc) = None \<and> i_IncidentUpdates inc = []
        \<and> parseTime L (i_CreatedAt inc) = Some t \<longrightarrow> incidentTime L inc = t)
   \<and> (parseTime L (i_UpdatedAt inc) = None \<and> i_IncidentUpdates inc = []
        \<and> parseTime L (i_CreatedAt inc) = None \<longrightarrow> incidentTime L inc = zeroTime)
   \<and> (parseTime L (i_UpdatedAt inc) = None \<and> i_IncidentUpdates inc = before @ u # after
        \<and> (\<forall>v\<in>set before. parseTime L (u_CreatedAt v) = None)
        \<and> parseTime L (u_CreatedAt u) = Some t \<longrightarrow> incidentTime L inc = t)
   \<and> (parseTime L (i_UpdatedAt inc) = None \<and> i_IncidentUpdates inc \<noteq> []
        \<and> (\<forall>v\<in>set (i_IncidentUpdates inc). parseTime L (u_CreatedAt v) = None)
        \<longrightarrow> incidentTime L inc = zeroTime)"
proof -
  have c1: "parseTime L (i_UpdatedAt inc) = Some t \<longrightarrow> incidentTime L inc = t"
    using incidentTime_updated by blast
  have c2: "parseTime L (i_UpdatedAt inc) = None \<and> i_IncidentUpdates inc = []
        \<and> parseTime L (i_CreatedAt inc) = Some t \<longrightarrow> incidentTime L inc = t"
    by (simp add: incidentTime_no_updates)
  have c3: "parseTime L (i_UpdatedAt inc) = None \<and> i_IncidentUpdates inc = []
        \<and> parseTime L (i_CreatedAt inc) = None \<longrightarrow> incidentTime L inc = zeroTime"
    by (simp add: incidentTime_no_updates)
  have c4: "parseTime L (i_UpdatedAt inc) = None \<and> i_IncidentUpdates inc = before @ u # after
        \<and> (\<forall>v\<in>set before. parseTime L (u_CreatedAt v) = None)
        \<and> parseTime L (u_CreatedAt u) = Some t \<longrightarrow> incidentTime L inc = t"
  proof
    assume a: "parseTime L (i_UpdatedAt inc) = None \<and> i_IncidentUpdates inc = before @ u # after
        \<and> (\<forall>v\<in>set before. parseTime L (u_CreatedAt v) = None)
        \<and> parseTime L (u_CreatedAt u) = Some t"
    then have "incidentTime L inc = firstParsed L (before @ u # after)"
      by (simp add: incidentTime_updates)
    also have "\<dots> = t" using a firstParsed_first by blast
    finally show "incidentTime L inc = t" .
  qed
  have c5: "parseTime L (i_UpdatedAt inc) = None \<and> i_IncidentUpdates inc \<noteq> []
        \<and> (\<forall>v\<in>set (i_IncidentUpdates inc). parseTime L (u_CreatedAt v) = None)
        \<longrightarrow> incidentTime L inc = zeroTime"
  proof
    assume a: "parseTime L (i_UpdatedAt inc) = None \<and> i_IncidentUpdates inc \<noteq> []
        \<and> (\<forall>v\<in>set (i_IncidentUpdates inc). parseTime L (u_CreatedAt v) = None)"
    then have "incidentTime L inc = firstParsed L (i_IncidentUpdates inc)"
      by (simp add: incidentTime_updates)
    also have "\<dots> = zeroTime" using a firstParsed_none by blast
    finally show "incidentTime L inc = zeroTime" .
  qed
  show ?thesis by (rule conjI[OF c1 conjI[OF c2 conjI[OF c3 conjI[OF c4 c5]]]])
qed

theorem incidentTime_cases_witness:
  "parseTime sample_lib (i_UpdatedAt ex_recent) = Some (63839836800 * 1000000000)
   \<and> incidentTime sample_lib ex_recent = 63839836800 * 1000000000
   \<and> parseTime sample_lib (i_UpdatedAt ex_unknown) = None \<and> i_IncidentUpdates ex_unknown = []
   \<and> parseTime sample_lib (i_CreatedAt ex_unknown) = None
   \<and> incidentTime sample_lib ex_unknown = zeroTime
   \<and> parseTime sample_lib (i_UpdatedAt ex_oldest_first) = None
   \<and> i_IncidentUpdates ex_oldest_first =
       [] @ ex_update ''2024-01-01T00:00:00Z'' # [ex_update ''2024-01-03T00:00:00Z'']
   \<and> parseTime sample_lib (u_CreatedAt (ex_update ''2024-01-01T00:00:00Z''))
       = Some (63839664000 * 1000000000)
   \<and> incidentTime sample_lib ex_oldest_first = 63839664000 * 1000000000
   \<and> parseTime sample_lib (i_UpdatedAt ex_created_only) = None
   \<and> i_IncidentUpdates ex_created_only = [ex_update ''yesterday'']
   \<and> parseTime sample_lib (u_CreatedAt (ex_update ''yesterday'')) = None
   \<and> incidentTime sample_lib ex_created_only = zeroTime"
proof -
  have p1: "parseTime sample_lib (i_UpdatedAt ex_recent) = Some (63839836800 * 1000000000)"
    by code_simp
  have p2: "parseTime sample_lib (i_UpdatedAt ex_unknown) = None"
    "parseTime sample_lib (i_CreatedAt ex_unknown) = None"
    by code_simp+
  have u2: "i_IncidentUpdates ex_unknown = []" by (simp add: ex_unknown_def ex_incident_def)
  have p3: "parseTime sample_lib (i_UpdatedAt ex_oldest_first) = None"
    "parseTime sample_lib (u_CreatedAt (ex_update ''2024-01-01T00:00:00Z''))
       = Some (63839664000 * 1000000000)"
    by code_simp+
  have u3: "i_IncidentUpdates ex_oldest_first =
       [] @ ex_update ''2024-01-01T00:00:00Z'' # [ex_update ''2024-01-03T00:00:00Z'']"
    by (simp add: ex_oldest_first_def ex_incident_def)
  have p4: "parseTime sample_lib (i_UpdatedAt ex_created_only) = None" by code_simp
  have l4: "i_IncidentUpdates ex_created_only = [ex_update ''yesterday'']"
    by (simp add: ex_created_only_def ex_incident_def)
  then have u4: "i_IncidentUpdates ex_created_only \<noteq> []" by simp
  have y4: "parseTime sample_lib (u_CreatedAt (ex_update ''yesterday'')) = None" by code_simp
  then have n4: "\<forall>v\<in>set (i_IncidentUpdates ex_created_only).
      parseTime sample_lib (u_CreatedAt v) = None"
    by (simp add: l4)
  have r1: "incidentTime sample_lib ex_recent = 63839836800 * 1000000000"
    using incidentTime_cases[where L = sample_lib and inc = ex_recent, THEN conjunct1] p1
    by blast
  have r2: "incidentTime sample_lib ex_unknown = zeroTime"
    using incidentTime_cases[where L = sample_lib and inc = ex_unknown,
        THEN conjunct2, THEN conjunct2, THEN conjunct1] p2 u2
    by blast
  have r3: "incidentTime sample_lib ex_oldest_first = 63839664000 * 1000000000"
    using incidentTime_cases[where L = sample_lib and inc = ex_oldest_first
        and before = "[]" and u = "ex_update ''2024-01-01T00:00:00Z''"
        and after = "[ex_update ''2024-01-03T00:00:00Z'']",
        THEN conjunct2, THEN conjunct2, THEN conjunct2, THEN conjunct1] p3 u3
    by simp
  have r4: "incidentTime sample_lib ex_created_only = zeroTime"
    using incidentTime_cases[where L = sample_lib and inc = ex_created_only,
        THEN conjunct2, THEN conjunct2, THEN conjunct2, THEN conjunct2] p4 u4 n4
    by blast
  show ?thesis using p1 r1 p2(1) u2 p2(2) r2 p3(1) u3 p3(2) r3 p4 l4 y4 r4 by (intro conjI)
qed

theorem incidentTime_ignores_createdAt:
  "i_UpdatedAt ex_created_only = []
   \<and> i_IncidentUpdates ex_created_only = [ex_update ''yesterday'']
   \<and> parseTime sample_lib (u_CreatedAt (ex_update ''yesterday'')) = None
   \<and> parseTime sample_lib (i_CreatedAt ex_created_only) = Some (63839664000 * 1000000000)
   \<and> incidentTime sample_lib ex_created_only = zeroTime
   \<and> zeroTime \<noteq> 63839664000 * 1000000000
   \<and> i_UpdatedAt ex_oldest_first = []
   \<and> i_IncidentUpdates ex_oldest_first =
       [ex_update ''2024-01-01T00:00:00Z'', ex_update ''2024-01-03T00:00:00Z'']
   \<and> parseTime sample_lib (u_CreatedAt (ex_update ''2024-01-03T00:00:00Z''))
       = Some (63839836800 * 1000000000)
   \<and> incidentTime sample_lib ex_oldest_first = 63839664000 * 1000000000
   \<and> (63839664000 * 1000000000 :: int) < 63839836800 * 1000000000"
proof (intro conjI)
  show "parseTime sample_lib (u_CreatedAt (ex_update ''yesterday'')) = None" by code_simp
  show "parseTime sample_lib (i_CreatedAt ex_created_only) = Some (63839664000 * 1000000000)"
    by code_simp
  show "incidentTime sample_lib ex_created_only = zeroTime" by code_simp
  show "parseTime sample_lib (u_CreatedAt (ex_update ''2024-01-03T00:00:00Z''))
       = Some (63839836800 * 1000000000)" by code_simp
  show "incidentTime sample_lib ex_oldest_first = 63839664000 * 1000000000" by code_simp
qed (simp_all add: ex_created_only_def ex_oldest_first_def ex_incident_def zeroTime_def)

subsection \<open>The updates shown\<close>

text \<open>
  Claim C4, as the code has it (release 0.3.0). The updates shown for an incident are
  its first three updates in the order of the feed, or all of them when there are at
  most three; they are not sorted by timestamp.
\<close>

theorem summarizeUpdates_take:
  "summarizeUpdates updates = take 3 updates
   \<and> length (summarizeUpdates updates) = min 3 (length updates)"
  by (simp add: summarizeUpdates_def maxIncidentUpdates_def)

theorem summarizeUpdates_feed_order:
  "summarizeUpdates ex_updates =
     [ex_update ''2024-01-01T00:00:00Z'', ex_update ''2024-01-02T00:00:00Z'',
      ex_update ''2024-01-03T00:00:00Z'']
   \<and> ex_updates ! 3 = ex_update ''2024-01-10T00:00:00Z''
   \<and> updateTime sample_lib (ex_update ''2024-01-01T00:00:00Z'') = 63839664000 * 1000000000
   \<and> updateTime sample_lib (ex_update ''2024-01-02T00:00:00Z'') = 63839750400 * 1000000000
   \<and> updateTime sample_lib (ex_update ''2024-01-03T00:00:00Z'') = 63839836800 * 1000000000
   \<and> updateTime sample_lib (ex_update ''2024-01-10T00:00:00Z'') = 63840441600 * 1000000000"
proof (intro conjI)
  show "summarizeUpdates ex_updates =
     [ex_update ''2024-01-01T00:00:00Z'', ex_update ''2024-01-02T00:00:00Z'',
      ex_update ''2024-01-03T00:00:00Z'']"
    by (simp add: summarizeUpdates_def maxIncidentUpdates_def ex_updates_def)
  show "ex_updates ! 3 = ex_update ''2024-01-10T00:00:00Z''" by (simp add: ex_updates_def)
  show "updateTime sample_lib (ex_update ''2024-01-01T00:00:00Z'') = 63839664000 * 1000000000"
    by code_simp
  show "updateTime sample_lib (ex_update ''2024-01-02T00:00:00Z'') = 63839750400 * 1000000000"
    by code_simp
  show "updateTime sample_lib (ex_update ''2024-01-03T00:00:00Z'') = 63839836800 * 1000000000"
    by code_simp
  show "updateTime sample_lib (ex_update ''2024-01-10T00:00:00Z'') = 63840441600 * 1000000000"
    by code_simp
qed

subsection \<open>The bounded retry of release 0.2.0\<close>



























lemma backoff_wraps: "sint (backoff 36) < 0"
  by (simp add: backoff_def Let_def retryBackoffInitial_def retryBackoffMax_def)





text \<open>
  The \<^verbatim>\<open>return\<close> that follows \<^verbatim>\<open>!shouldRetryStatus(resp.StatusCode)\<close> leaves the anonymous
  function only: \<^verbatim>\<open>lastErr\<close> is set, the last-attempt test fails, and the loop waits and
  sends the next request after a 404 as after a 503.
\<close>

lemma fetchJSON_after_404:
  "\<not> shouldRetryStatus 404
   \<and> fetchJSON (replies [Reply 404 None, Reply 200 (Some ''payload'')]) (\<lambda>n. False) 2 =
       (None, Some ''payload'', [Request 1, Wait 300000000, Request 2])"
proof (intro conjI)
  show "\<not> shouldRetryStatus 404" by (simp add: shouldRetryStatus_def)
  show "fetchJSON (replies [Reply 404 None, Reply 200 (Some ''payload'')]) (\<lambda>n. False) 2 =
       (None, Some ''payload'', [Request 1, Wait 300000000, Request 2])"
    by code_simp
qed

subsection \<open>The same functions in release 0.2.0\<close>

text \<open>
  Release 0.2.0 sorts the updates of an incident by parsed timestamp, newest first, an
  unparseable timestamp counting as the zero time, before it truncates them and before
  it looks for the first parseable one; and it compares the impact rank of two incidents
  before their timestamps.
\<close>

lemma sortIncidentUpdates_spec:
  assumes "sort_Slice_ok L"
  shows "mset (sortIncidentUpdates L updates) = mset updates
     \<and> sorted_wrt (\<lambda>a b. updateTime L b \<le> updateTime L a) (sortIncidentUpdates L updates)"
proof -
  let ?lt = "\<lambda>a b. updateTime L a > updateTime L b"
  have s: "sorts (sort_Slice_u L)" using assms by (simp add: sort_Slice_ok_def)
  have "strict_weak ?lt" unfolding strict_weak_def by auto
  with s have "sorted_wrt (\<lambda>a b. \<not> ?lt b a) (sortIncidentUpdates L updates)"
    unfolding sortIncidentUpdates_def by (rule sorts_sorted)
  then have "sorted_wrt (\<lambda>a b. updateTime L b \<le> updateTime L a) (sortIncidentUpdates L updates)"
    by (simp add: not_less)
  moreover have "mset (sortIncidentUpdates L updates) = mset updates"
    unfolding sortIncidentUpdates_def using s by (rule sorts_mset)
  ultimately show ?thesis by blast
qed

lemma summarizeUpdates_v02_spec:
  "summarizeUpdates_v02 L updates = take 3 (sortIncidentUpdates L updates)"
  by (simp add: summarizeUpdates_v02_def Let_def maxIncidentUpdates_def)

lemma firstParsed_newest:
  assumes "sorted_wrt (\<lambda>a b. updateTime L b \<le> updateTime L a) us"
    and "u \<in> set us" and "parseTime L (u_CreatedAt u) = Some t"
  shows "t \<le> firstParsed L us
     \<and> (\<exists>v\<in>set us. parseTime L (u_CreatedAt v) = Some (firstParsed L us))"
  using assms(1,2)
proof (induction us)
  case Nil
  then show ?case by simp
next
  case (Cons x xs)
  show ?case
  proof (cases "parseTime L (u_CreatedAt x)")
    case None
    then have "u \<noteq> x" using assms(3) by auto
    then have "u \<in> set xs" using Cons.prems(2) by simp
    moreover have "sorted_wrt (\<lambda>a b. updateTime L b \<le> updateTime L a) xs"
      using Cons.prems(1) by simp
    ultimately have "t \<le> firstParsed L xs
        \<and> (\<exists>v\<in>set xs. parseTime L (u_CreatedAt v) = Some (firstParsed L xs))"
      using Cons.IH by blast
    then show ?thesis using None by auto
  next
    case (Some tx)
    have "t \<le> tx"
    proof (cases "u = x")
      case True
      then show ?thesis using Some assms(3) by simp
    next
      case False
      then have "u \<in> set xs" using Cons.prems(2) by simp
      then have "updateTime L u \<le> updateTime L x" using Cons.prems(1) by simp
      then show ?thesis using Some assms(3) by (simp add: updateTime_def)
    qed
    then show ?thesis using Some by auto
  qed
qed

lemma incidentTime_v02_newest:
  assumes "sort_Slice_ok L" and "parseTime L (i_UpdatedAt inc) = None"
    and "u \<in> set (i_IncidentUpdates inc)" and "parseTime L (u_CreatedAt u) = Some t"
  shows "t \<le> incidentTime_v02 L inc
     \<and> (\<exists>v\<in>set (i_IncidentUpdates inc).
           parseTime L (u_CreatedAt v) = Some (incidentTime_v02 L inc))"
proof -
  let ?sorted = "sortIncidentUpdates L (i_IncidentUpdates inc)"
  have ne: "i_IncidentUpdates inc \<noteq> []" using assms(3) by auto
  then have eq: "incidentTime_v02 L inc = firstParsed L ?sorted"
    using assms(2) by (simp add: incidentTime_v02_def)
  have sp: "mset ?sorted = mset (i_IncidentUpdates inc)"
    "sorted_wrt (\<lambda>a b. updateTime L b \<le> updateTime L a) ?sorted"
    using sortIncidentUpdates_spec[OF assms(1)] by blast+
  have st: "set ?sorted = set (i_IncidentUpdates inc)" using sp(1) by (metis set_mset_mset)
  then have "u \<in> set ?sorted" using assms(3) by simp
  from firstParsed_newest[OF sp(2) this assms(4)] show ?thesis unfolding eq st .
qed

lemma incidentTime_v02_ignores_createdAt:
  "incidentTime_v02 sample_lib ex_created_only = zeroTime
   \<and> parseTime sample_lib (i_CreatedAt ex_created_only) = Some (63839664000 * 1000000000)"
proof (intro conjI)
  show "incidentTime_v02 sample_lib ex_created_only = zeroTime" by code_simp
  show "parseTime sample_lib (i_CreatedAt ex_created_only) = Some (63839664000 * 1000000000)"
    by code_simp
qed

lemma sortIncidents_v02_impact_first:
  "sortIncidents_v02 sample_lib [ex_minor, ex_newest, ex_critical_c, ex_critical_a] =
     [ex_critical_a, ex_critical_c, ex_minor, ex_newest]"
  by code_simp

end
